theory Spec2Isabelle
  imports Main "HOL-Library.Sublist"
begin

section \<open>JavaScript values used by the program\<close>

text \<open>
  The program modelled is the version of \<open>index.ts\<close> with the classes \<open>CloudFormation\<close>
  and \<open>FilesystemCache\<close>, the \<open>--include\<close> option and the second pass over the region
  \<open>us-east-1\<close>. The earlier versions have no region configuration: their node names are
  those of a region configuration that is not implicit.

  Strings are character lists. A property of an SDK object that may be missing is an
  \<open>option\<close>. JavaScript's truthiness test on such a property (\<open>!x\<close>, \<open>if (x)\<close>,
  \<open>while (x)\<close>) fails for \<open>undefined\<close> and for the empty string.
\<close>

definition truthy :: "string option \<Rightarrow> bool" where
  "truthy v = (case v of None \<Rightarrow> False | Some s \<Rightarrow> s \<noteq> [])"

text \<open>A template literal prints a missing value as the text \<open>undefined\<close>.\<close>

definition template :: "string option \<Rightarrow> string" where
  "template v = (case v of None \<Rightarrow> ''undefined'' | Some s \<Rightarrow> s)"

datatype error =
    Invalid_stack
  | Invalid_tag
  | Invalid_export
  | Stack_not_found string
  | CloudFormationServiceException string
  | Other_error string
  | Regex_syntax_error
  | Regex_outside_fragment
  | Json_syntax_error

section \<open>The SDK's data\<close>

record tag =
  Key :: "string option"
  Value :: "string option"

record stack =
  StackId :: "string option"
  StackName :: "string option"
  ParentId :: "string option"
  Tags :: "tag list option"

record export =
  ExportingStackId :: "string option"
  Name :: "string option"

record regionConfiguration =
  region :: "string option"
  implicit :: bool

section \<open>Node names\<close>

text \<open>\<open>getTagValue\<close>: the value of the first tag with the given key, \<open>null\<close> (here
  \<open>None\<close>) when there is none; a stack without a tag list and a found tag without a
  value are errors.\<close>

definition getTagValue :: "stack \<Rightarrow> string \<Rightarrow> error + string option" where
  "getTagValue stack key =
     (case Tags stack of
        None \<Rightarrow> Inl Invalid_stack
      | Some tags \<Rightarrow>
          (case find (\<lambda>t. Key t = Some key) tags of
             None \<Rightarrow> Inr None
           | Some t \<Rightarrow> if \<not> truthy (Value t) then Inl Invalid_tag else Inr (Value t)))"

text \<open>The text appended to a node name of the implicitly processed region.\<close>

definition regionSuffix :: "regionConfiguration \<Rightarrow> string" where
  "regionSuffix regionConfig =
     (if implicit regionConfig then '' ('' @ template (region regionConfig) @ '')'' else '''')"

definition getNodeNameForApp :: "stack \<Rightarrow> regionConfiguration \<Rightarrow> error + string" where
  "getNodeNameForApp stack regionConfig =
     (case getTagValue stack ''balsamiq-product'' of
        Inl e \<Rightarrow> Inl e
      | Inr appName \<Rightarrow>
          (case getTagValue stack ''environment'' of
             Inl e \<Rightarrow> Inl e
           | Inr environment \<Rightarrow>
               if truthy appName \<and> truthy environment
               then Inr (template appName @ ''-'' @ template environment @ regionSuffix regionConfig)
               else if truthy (StackName stack)
               then Inr (template (StackName stack) @ regionSuffix regionConfig)
               else Inl Invalid_stack))"

definition getNodeNameForStack :: "stack \<Rightarrow> regionConfiguration \<Rightarrow> error + string" where
  "getNodeNameForStack stack regionConfig =
     (if truthy (StackName stack)
      then Inr (template (StackName stack) @ regionSuffix regionConfig)
      else Inl Invalid_stack)"

section \<open>The map of stacks\<close>

text \<open>
  A JavaScript \<open>Map\<close> keeps its keys in insertion order; \<open>set\<close> on a key that is
  already there replaces the value and leaves the key where it is. The model is an
  association list with pairwise distinct keys.
\<close>

type_synonym ('k, 'v) js_map = "('k \<times> 'v) list"

fun map_set :: "'k \<Rightarrow> 'v \<Rightarrow> ('k, 'v) js_map \<Rightarrow> ('k, 'v) js_map" where
  "map_set k v [] = [(k, v)]"
| "map_set k v ((k', v') # m) = (if k' = k then (k, v) # m else (k', v') # map_set k v m)"

definition map_get :: "('k, 'v) js_map \<Rightarrow> 'k \<Rightarrow> 'v option" where
  "map_get m k = map_of m k"

definition map_values :: "('k, 'v) js_map \<Rightarrow> 'v list" where
  "map_values m = map snd m"

text \<open>The \<open>reduce\<close> of \<open>getStacks\<close> over the fetched stacks, from the map built so far.\<close>

fun getStacks_reduce :: "(string, stack) js_map \<Rightarrow> stack list \<Rightarrow> error + (string, stack) js_map" where
  "getStacks_reduce result [] = Inr result"
| "getStacks_reduce result (stack # stacks) =
     (if \<not> truthy (StackId stack) \<or> \<not> truthy (StackName stack) then Inl Invalid_stack
      else getStacks_reduce
             (map_set (template (StackName stack)) stack
               (map_set (template (StackId stack)) stack result))
             stacks)"

section \<open>The world: the service, the cache directory, the output\<close>

datatype command = DescribeStacksCommand | ListExportsCommand | ListImportsCommand string

record response =
  Stacks :: "stack list option"
  Exports :: "export list option"
  Imports :: "string list option"
  NextToken :: "string option"

text \<open>
  An output operation is recorded when the program issues it: \<open>WriteFile dir file text\<close>
  stands for \<open>writeFile(joinPath(dir, file), text)\<close>, likewise \<open>AppendFile\<close>;
  \<open>MadgeImage dir file\<close> for rendering the directory \<open>dir\<close> into the image \<open>file\<close>.
\<close>

datatype file_op =
    Mkdir string
  | WriteFile string string string
  | AppendFile string string string
  | MadgeImage string string

text \<open>
  The service answers a request (region of the client, command, \<open>NextToken\<close>) with an
  error or a response, the same one whenever it is asked the same; every request sent
  is logged in \<open>calls\<close>. A file of the cache directory, named by its path below that
  directory, is missing (\<open>None\<close>), fails to be read with an error other than
  \<open>ENOENT\<close>, or has contents.
\<close>

record world =
  service :: "string option \<Rightarrow> command \<Rightarrow> string option \<Rightarrow> error + response"
  calls :: "(string option \<times> command \<times> string option) list"
  cache_files :: "string \<Rightarrow> (error + string) option"
  ops :: "file_op list"

text \<open>A computation on the world throws or returns, or never returns (\<open>None\<close>).\<close>

type_synonym 'a prog = "world \<Rightarrow> ((error + 'a) \<times> world) option"

definition returns :: "'a \<Rightarrow> 'a prog" where
  "returns x w = Some (Inr x, w)"

definition throws :: "error \<Rightarrow> 'a prog" where
  "throws e w = Some (Inl e, w)"

definition await :: "'a prog \<Rightarrow> ('a \<Rightarrow> 'b prog) \<Rightarrow> 'b prog" where
  "await m f w =
     (case m w of
        None \<Rightarrow> None
      | Some (Inl e, w') \<Rightarrow> Some (Inl e, w')
      | Some (Inr x, w') \<Rightarrow> f x w')"

section \<open>The API client wrapper\<close>

definition send :: "string option \<Rightarrow> command \<Rightarrow> string option \<Rightarrow> response prog" where
  "send rgn cmd nextToken w =
     Some (service w rgn cmd nextToken, w\<lparr>calls := calls w @ [(rgn, cmd, nextToken)]\<rparr>)"

text \<open>The body of the \<open>do ... while (nextToken)\<close> loop of \<open>consumeAllTokens\<close>, entered
  with the results so far and the token to pass.\<close>

partial_function (option) consumeAllTokens_loop ::
  "string option \<Rightarrow> command \<Rightarrow> (response \<Rightarrow> 'a list option) \<Rightarrow> 'a list \<Rightarrow> string option
     \<Rightarrow> world \<Rightarrow> ((error + 'a list) \<times> world) option" where
  "consumeAllTokens_loop rgn cmd resultProp result nextToken w =
     (case send rgn cmd nextToken w of
        None \<Rightarrow> None
      | Some (Inl e, w') \<Rightarrow> Some (Inl e, w')
      | Some (Inr resp, w') \<Rightarrow>
          (let result' = (case resultProp resp of
                            None \<Rightarrow> result
                          | Some partialResults \<Rightarrow> result @ partialResults)
           in if truthy (NextToken resp)
              then consumeAllTokens_loop rgn cmd resultProp result' (NextToken resp) w'
              else Some (Inr result', w')))"

definition consumeAllTokens ::
  "string option \<Rightarrow> command \<Rightarrow> (response \<Rightarrow> 'a list option) \<Rightarrow> 'a list prog" where
  "consumeAllTokens rgn cmd resultProp = consumeAllTokens_loop rgn cmd resultProp [] None"

definition describeStacks :: "string option \<Rightarrow> stack list prog" where
  "describeStacks rgn = consumeAllTokens rgn DescribeStacksCommand Stacks"

definition listExports :: "string option \<Rightarrow> export list prog" where
  "listExports rgn = consumeAllTokens rgn ListExportsCommand Exports"

definition notImportedMessage :: "string \<Rightarrow> string" where
  "notImportedMessage exportName =
     ''Export '' @ [CHR 0x27] @ exportName @ [CHR 0x27] @ '' is not imported by any stack.''"

definition listImports :: "string option \<Rightarrow> string \<Rightarrow> string list prog" where
  "listImports rgn exportName w =
     (case consumeAllTokens rgn (ListImportsCommand exportName) Imports w of
        None \<Rightarrow> None
      | Some (Inl e, w') \<Rightarrow>
          if e = CloudFormationServiceException (notImportedMessage exportName)
          then Some (Inr [], w')
          else Some (Inl e, w')
      | Some (Inr imports, w') \<Rightarrow> Some (Inr imports, w'))"

section \<open>The read-through cache\<close>

text \<open>\<open>JSON.parse\<close> (\<open>None\<close> when it throws) and \<open>JSON.stringify\<close> at the type of the
  cached value.\<close>

record 'a codec =
  parse :: "string \<Rightarrow> 'a option"
  stringify :: "'a \<Rightarrow> string"

text \<open>\<open>_readFileOrNull\<close>: the contents, \<open>null\<close> when the file does not exist; any other
  error is thrown again.\<close>

definition readFileOrNull :: "string \<Rightarrow> string option prog" where
  "readFileOrNull path w =
     (case cache_files w path of
        None \<Rightarrow> Some (Inr None, w)
      | Some (Inl e) \<Rightarrow> Some (Inl e, w)
      | Some (Inr contents) \<Rightarrow> Some (Inr (Some contents), w))"

text \<open>The program starts \<open>writeFile\<close> on a cache file and does not wait for it; the
  model takes the file as written at once.\<close>

definition writeCacheFile :: "string \<Rightarrow> string \<Rightarrow> world \<Rightarrow> world" where
  "writeCacheFile path contents w = w\<lparr>cache_files := (cache_files w)(path := Some (Inr contents))\<rparr>"

definition cacheOrWork :: "'a codec \<Rightarrow> string \<Rightarrow> 'a prog \<Rightarrow> 'a prog" where
  "cacheOrWork c path work =
     await (readFileOrNull path) (\<lambda>cacheContents.
       if truthy cacheContents
       then (case parse c (template cacheContents) of
               None \<Rightarrow> throws Json_syntax_error
             | Some v \<Rightarrow> returns v)
       else await work (\<lambda>result w. Some (Inr result, writeCacheFile path (stringify c result) w)))"

section \<open>Regular expressions\<close>

text \<open>
  The program tests stack names against regular expressions, two of them built from the
  text of the command line. The model follows the engine on the fragment of the pattern
  syntax made of ordinary characters, \<open>.\<close>, \<open>^\<close>, \<open>$\<close>, \<open>|\<close> and groups, without
  flags; all patterns of the source are in it. A pattern that uses a backslash, a
  quantifier, a bracket or a brace is outside the fragment, and the parser reports it
  as \<open>Regex_outside_fragment\<close>.
\<close>

datatype rx = Epsilon | Chr char | AnyChar | Bol | Eol | Cat rx rx | Alt rx rx

text \<open>A frame of the parser: the alternatives of the group read so far, and the
  alternative being read.\<close>

type_synonym frame = "rx option \<times> rx"

definition close_frame :: "frame \<Rightarrow> rx" where
  "close_frame f = (case fst f of None \<Rightarrow> snd f | Some a \<Rightarrow> Alt a (snd f))"

definition add_atom :: "rx \<Rightarrow> frame \<Rightarrow> frame" where
  "add_atom a f = (fst f, Cat (snd f) a)"

fun regex_parse :: "frame \<Rightarrow> frame list \<Rightarrow> string \<Rightarrow> error + rx" where
  "regex_parse inner outer [] =
     (if outer = [] then Inr (close_frame inner) else Inl Regex_syntax_error)"
| "regex_parse inner outer (c # cs) =
     (if c = CHR ''('' then regex_parse (None, Epsilon) (inner # outer) cs
      else if c = CHR '')'' then
        (case outer of
           [] \<Rightarrow> Inl Regex_syntax_error
         | parent # outer' \<Rightarrow> regex_parse (add_atom (close_frame inner) parent) outer' cs)
      else if c = CHR ''|'' then regex_parse (Some (close_frame inner), Epsilon) outer cs
      else if c = CHR ''^'' then regex_parse (add_atom Bol inner) outer cs
      else if c = CHR ''$'' then regex_parse (add_atom Eol inner) outer cs
      else if c = CHR ''.'' then regex_parse (add_atom AnyChar inner) outer cs
      else if c \<in> {CHR 0x5C, CHR ''*'', CHR ''+'', CHR ''?'', CHR ''['', CHR '']'', CHR ''{'', CHR ''}''}
      then Inl Regex_outside_fragment
      else regex_parse (add_atom (Chr c) inner) outer cs)"

text \<open>\<open>rx_match r s i j\<close>: the expression matches the characters of \<open>s\<close> from position
  \<open>i\<close> up to position \<open>j\<close>. The dot matches any character but a line terminator.\<close>

primrec rx_match :: "rx \<Rightarrow> string \<Rightarrow> nat \<Rightarrow> nat \<Rightarrow> bool" where
  "rx_match Epsilon s i j = (j = i)"
| "rx_match (Chr c) s i j = (i < length s \<and> s ! i = c \<and> j = Suc i)"
| "rx_match AnyChar s i j = (i < length s \<and> s ! i \<noteq> CHR 0x0A \<and> s ! i \<noteq> CHR 0x0D \<and> j = Suc i)"
| "rx_match Bol s i j = (i = 0 \<and> j = i)"
| "rx_match Eol s i j = (i = length s \<and> j = i)"
| "rx_match (Cat a b) s i j = list_ex (\<lambda>k. rx_match a s i k \<and> rx_match b s k j) [i..<Suc j]"
| "rx_match (Alt a b) s i j = (rx_match a s i j \<or> rx_match b s i j)"

text \<open>A match of the expression somewhere in \<open>s\<close>.\<close>

definition rx_search :: "rx \<Rightarrow> string \<Rightarrow> bool" where
  "rx_search r s =
     list_ex (\<lambda>i. list_ex (\<lambda>j. rx_match r s i j) [i..<Suc (length s)]) [0..<Suc (length s)]"

text \<open>
  \<open>new RegExp(pattern).test(s)\<close>. For a pattern outside the fragment the answer is
  that of \<open>engine\<close>, a parameter about which nothing is assumed: it stands for what
  the real engine does with such a pattern, a syntax error or a verdict.
\<close>

type_synonym engine = "string \<Rightarrow> string \<Rightarrow> error + bool"

definition regex_test :: "engine \<Rightarrow> string \<Rightarrow> string \<Rightarrow> error + bool" where
  "regex_test engine pattern s =
     (case regex_parse (None, Epsilon) [] pattern of
        Inl e \<Rightarrow> if e = Regex_outside_fragment then engine pattern s else Inl e
      | Inr r \<Rightarrow> Inr (rx_search r s))"

text \<open>The test of a regular expression literal of the source; they are all in the
  fragment.\<close>

definition literal_test :: "string \<Rightarrow> string \<Rightarrow> bool" where
  "literal_test pattern s =
     (case regex_parse (None, Epsilon) [] pattern of
        Inl e \<Rightarrow> False
      | Inr r \<Rightarrow> rx_search r s)"

section \<open>The filter\<close>

datatype includeOptionChoice = Mysql | Redis

text \<open>\<open>apps.join("|")\<close>.\<close>

fun join :: "string \<Rightarrow> string list \<Rightarrow> string" where
  "join sep [] = []"
| "join sep [x] = x"
| "join sep (x # y # ys) = x @ sep @ join sep (y # ys)"

definition isInterestingStack ::
  "engine \<Rightarrow> stack \<Rightarrow> string \<Rightarrow> string list option \<Rightarrow> includeOptionChoice list option \<Rightarrow> error + bool" where
  "isInterestingStack engine stack environment apps includes =
     (if \<not> truthy (StackName stack) then Inl Invalid_stack
      else
        let name = template (StackName stack);
            result =
              (\<not> literal_test ''^CDKToolkit$'' name \<and>
               ParentId stack = None \<and>
               \<not> literal_test ''^internal-'' name \<and>
               \<not> literal_test ''^(balsamiq-slack)$'' name \<and>
               \<not> literal_test ''^(workflow-triggerer|autosavedreactionsforslack|acetaia|bottega)-'' name);
            result =
              (if includes = None \<or> Mysql \<notin> set (the includes)
               then result \<and> \<not> literal_test ''-mysql$'' name else result);
            result =
              (if includes = None \<or> Redis \<notin> set (the includes)
               then result \<and> \<not> literal_test ''-redis$'' name else result)
        in if \<not> result then Inr False
           else
             (case regex_test engine (''-'' @ environment @ ''-|-'' @ environment @ ''$'') name of
                Inl e \<Rightarrow> Inl e
              | Inr False \<Rightarrow> Inr False
              | Inr True \<Rightarrow>
                  (case apps of
                     None \<Rightarrow> Inr True
                   | Some as \<Rightarrow> regex_test engine (''^('' @ join ''|'' as @ '')-'') name)))"

section \<open>Graph emission\<close>

definition CACHE_DIR :: string where
  "CACHE_DIR = ''.cache''"

definition APP_OUTPUT_DIR :: string where
  "APP_OUTPUT_DIR = ''.output/apps''"

definition STACK_OUTPUT_DIR :: string where
  "STACK_OUTPUT_DIR = ''.output/stacks''"

text \<open>The test \<open>!apps || apps.length > 1\<close> that gates the apps-level output.\<close>

definition multipleApps :: "string list option \<Rightarrow> bool" where
  "multipleApps apps = (case apps of None \<Rightarrow> True | Some as \<Rightarrow> length as > 1)"

text \<open>
  The two loops of \<open>processCloudFormation\<close> touch neither the service nor the cache:
  they are modelled as computations that yield the output operations issued, in order,
  and then throw or return.
\<close>

type_synonym 'a emit = "file_op list \<times> (error + 'a)"

definition skip :: "unit emit" where
  "skip = ([], Inr ())"

definition issue :: "file_op \<Rightarrow> unit emit" where
  "issue opn = ([opn], Inr ())"

definition outcome :: "error + 'a \<Rightarrow> 'a emit" where
  "outcome r = ([], r)"

definition andThen :: "'a emit \<Rightarrow> ('a \<Rightarrow> 'b emit) \<Rightarrow> 'b emit" where
  "andThen m f =
     (case snd m of
        Inl e \<Rightarrow> (fst m, Inl e)
      | Inr x \<Rightarrow> (fst m @ fst (f x), snd (f x)))"

fun forEach :: "('a \<Rightarrow> unit emit) \<Rightarrow> 'a list \<Rightarrow> unit emit" where
  "forEach body [] = skip"
| "forEach body (x # xs) = andThen (body x) (\<lambda>_. forEach body xs)"

text \<open>\<open>stacks.filter(isInterestingStack)\<close>, with the predicate's exception.\<close>

fun filterInteresting ::
  "engine \<Rightarrow> string \<Rightarrow> string list option \<Rightarrow> includeOptionChoice list option \<Rightarrow> stack list \<Rightarrow> error + stack list" where
  "filterInteresting engine environment apps includes [] = Inr []"
| "filterInteresting engine environment apps includes (stack # stacks) =
     (case isInterestingStack engine stack environment apps includes of
        Inl e \<Rightarrow> Inl e
      | Inr keep \<Rightarrow>
          (case filterInteresting engine environment apps includes stacks of
             Inl e \<Rightarrow> Inl e
           | Inr rest \<Rightarrow> Inr (if keep then stack # rest else rest)))"

text \<open>The body of the loop over the interesting stacks.\<close>

definition writePlaceholders :: "regionConfiguration \<Rightarrow> string list option \<Rightarrow> stack \<Rightarrow> unit emit" where
  "writePlaceholders regionConfig apps stack =
     andThen
       (if multipleApps apps
        then andThen (outcome (getNodeNameForApp stack regionConfig))
               (\<lambda>node. issue (WriteFile APP_OUTPUT_DIR (node @ ''.js'') []))
        else skip)
       (\<lambda>_. andThen (outcome (getNodeNameForStack stack regionConfig))
               (\<lambda>node. issue (WriteFile STACK_OUTPUT_DIR (node @ ''.js'') [])))"

text \<open>The line appended to the importing unit.\<close>

definition requireLine :: "string \<Rightarrow> export \<Rightarrow> string" where
  "requireLine exportingNode eexport =
     ''require('' @ [CHR 0x27] @ ''./'' @ exportingNode @ [CHR 0x27] @ ''); // ''
       @ template (Name eexport) @ [CHR 0x0A]"

text \<open>The body of the inner loop, over the stacks that import an export.\<close>

definition appendForImport ::
  "engine \<Rightarrow> regionConfiguration \<Rightarrow> string \<Rightarrow> string list option \<Rightarrow> includeOptionChoice list option
     \<Rightarrow> (string, stack) js_map \<Rightarrow> export \<Rightarrow> stack \<Rightarrow> string \<Rightarrow> unit emit" where
  "appendForImport engine regionConfig environment apps includes stacks eexport exportingStack iimport =
     (case map_get stacks iimport of
        None \<Rightarrow> outcome (Inl (Stack_not_found iimport))
      | Some importingStack \<Rightarrow>
          andThen (outcome (isInterestingStack engine importingStack environment apps includes))
            (\<lambda>interesting.
               if \<not> interesting then skip
               else
                 andThen
                   (if multipleApps apps
                    then andThen (outcome (getNodeNameForApp exportingStack regionConfig))
                           (\<lambda>exportingNode.
                              andThen (outcome (getNodeNameForApp importingStack regionConfig))
                                (\<lambda>importingNode.
                                   if exportingNode \<noteq> importingNode
                                   then issue (AppendFile APP_OUTPUT_DIR (importingNode @ ''.js'')
                                                 (requireLine exportingNode eexport))
                                   else skip))
                    else skip)
                   (\<lambda>_. andThen (outcome (getNodeNameForStack exportingStack regionConfig))
                           (\<lambda>exportingNode.
                              andThen (outcome (getNodeNameForStack importingStack regionConfig))
                                (\<lambda>importingNode.
                                   if exportingNode \<noteq> importingNode
                                   then issue (AppendFile STACK_OUTPUT_DIR (importingNode @ ''.js'')
                                                 (requireLine exportingNode eexport))
                                   else skip)))))"

text \<open>The body of the outer loop, over the exports with their importing stacks.\<close>

definition appendForExport ::
  "engine \<Rightarrow> regionConfiguration \<Rightarrow> string \<Rightarrow> string list option \<Rightarrow> includeOptionChoice list option
     \<Rightarrow> (string, stack) js_map \<Rightarrow> export \<times> string list \<Rightarrow> unit emit" where
  "appendForExport engine regionConfig environment apps includes stacks entry =
     (let eexport = fst entry; imports = snd entry
      in if \<not> truthy (ExportingStackId eexport) then outcome (Inl Invalid_export)
         else
           (case map_get stacks (template (ExportingStackId eexport)) of
              None \<Rightarrow> outcome (Inl (Stack_not_found (template (ExportingStackId eexport))))
            | Some exportingStack \<Rightarrow>
                andThen (outcome (isInterestingStack engine exportingStack environment apps includes))
                  (\<lambda>interesting.
                     if \<not> interesting then skip
                     else forEach
                            (appendForImport engine regionConfig environment apps includes stacks
                               eexport exportingStack)
                            imports)))"

text \<open>Everything \<open>processCloudFormation\<close> does once the stacks and the exports with
  their importing stacks are fetched.\<close>

definition emitGraph ::
  "engine \<Rightarrow> regionConfiguration \<Rightarrow> string \<Rightarrow> string list option \<Rightarrow> includeOptionChoice list option
     \<Rightarrow> (string, stack) js_map \<Rightarrow> (export \<times> string list) list \<Rightarrow> unit emit" where
  "emitGraph engine regionConfig environment apps includes stacks exportsWithImportingStacks =
     andThen (outcome (filterInteresting engine environment apps includes (map_values stacks)))
       (\<lambda>interestingStacks.
          andThen (forEach (writePlaceholders regionConfig apps) interestingStacks)
            (\<lambda>_. forEach (appendForExport engine regionConfig environment apps includes stacks)
                    exportsWithImportingStacks))"

section \<open>Fetching, and the program\<close>

record codecs =
  stacksJson :: "stack list codec"
  exportsJson :: "export list codec"
  importsJson :: "string list codec"

definition getStacks :: "codecs \<Rightarrow> string option \<Rightarrow> (string, stack) js_map prog" where
  "getStacks json rgn =
     await (cacheOrWork (stacksJson json) (template rgn @ ''_stacks.cache.json'') (describeStacks rgn))
       (\<lambda>stacks. case getStacks_reduce [] stacks of
                    Inl e \<Rightarrow> throws e
                  | Inr result \<Rightarrow> returns result)"

fun getExportsWithImportingStacks ::
  "export list \<Rightarrow> codecs \<Rightarrow> string option \<Rightarrow> (export \<times> string list) list prog" where
  "getExportsWithImportingStacks [] json rgn = returns []"
| "getExportsWithImportingStacks (eexport # exports) json rgn =
     await (cacheOrWork (importsJson json)
              (template rgn @ ''_cfListImports-'' @ template (Name eexport))
              (if \<not> truthy (Name eexport) then throws Invalid_export
               else listImports rgn (template (Name eexport))))
       (\<lambda>imports. await (getExportsWithImportingStacks exports json rgn)
                     (\<lambda>rest. returns ((eexport, imports) # rest)))"

text \<open>Issuing the output operations of an emission in the world.\<close>

definition perform :: "'a emit \<Rightarrow> 'a prog" where
  "perform m w = Some (snd m, w\<lparr>ops := ops w @ fst m\<rparr>)"

definition processCloudFormation ::
  "engine \<Rightarrow> codecs \<Rightarrow> regionConfiguration \<Rightarrow> string \<Rightarrow> string list option
     \<Rightarrow> includeOptionChoice list option \<Rightarrow> unit prog" where
  "processCloudFormation engine json regionConfig environment apps includes =
     await (getStacks json (region regionConfig))
       (\<lambda>stacks.
          await (cacheOrWork (exportsJson json)
                   (template (region regionConfig) @ ''_exports.cache.json'')
                   (listExports (region regionConfig)))
            (\<lambda>exports.
               await (getExportsWithImportingStacks exports json (region regionConfig))
                 (\<lambda>exportsWithImportingStacks.
                    perform (emitGraph engine regionConfig environment apps includes stacks
                               exportsWithImportingStacks))))"

text \<open>\<open>main\<close>, after the command line is read: \<open>rgn\<close> is the environment variable
  \<open>AWS_REGION\<close>.\<close>

definition main ::
  "engine \<Rightarrow> codecs \<Rightarrow> string option \<Rightarrow> string \<Rightarrow> string list option
     \<Rightarrow> includeOptionChoice list option \<Rightarrow> unit prog" where
  "main engine json rgn environment apps includes =
     await (perform (andThen (issue (Mkdir APP_OUTPUT_DIR))
                      (\<lambda>_. andThen (issue (Mkdir STACK_OUTPUT_DIR))
                              (\<lambda>_. issue (Mkdir CACHE_DIR)))))
       (\<lambda>_. await (processCloudFormation engine json \<lparr>region = rgn, implicit = False\<rparr>
                      environment apps includes)
          (\<lambda>_. await (if rgn \<noteq> Some ''us-east-1''
                       then processCloudFormation engine json \<lparr>region = Some ''us-east-1'', implicit = True\<rparr>
                              environment apps includes
                       else returns ())
             (\<lambda>_. perform (andThen (if multipleApps apps
                                     then issue (MadgeImage APP_OUTPUT_DIR ''graph-apps.png'')
                                     else skip)
                             (\<lambda>_. issue (MadgeImage STACK_OUTPUT_DIR ''graph-stacks.png''))))))"

section \<open>Describing what the service answers\<close>

text \<open>
  \<open>pagination srv tok pages\<close>: asked with the token \<open>tok\<close>, the service answers with the
  first of \<open>pages\<close>, and asked with each page's \<open>NextToken\<close> it answers with the next
  page; the last page is the first one whose \<open>NextToken\<close> is missing or empty.
\<close>

fun pagination :: "(string option \<Rightarrow> error + response) \<Rightarrow> string option \<Rightarrow> response list \<Rightarrow> bool" where
  "pagination srv tok [] = False"
| "pagination srv tok [r] = (srv tok = Inr r \<and> \<not> truthy (NextToken r))"
| "pagination srv tok (r # r' # rs) =
     (srv tok = Inr r \<and> truthy (NextToken r) \<and> pagination srv (NextToken r) (r' # rs))"

text \<open>\<open>failing srv tok pages e\<close>: the service answers with \<open>pages\<close>, each announcing a
  next page, and then fails with the error \<open>e\<close>.\<close>

fun failing ::
  "(string option \<Rightarrow> error + response) \<Rightarrow> string option \<Rightarrow> response list \<Rightarrow> error \<Rightarrow> bool" where
  "failing srv tok [] e = (srv tok = Inl e)"
| "failing srv tok (r # rs) e =
     (srv tok = Inr r \<and> truthy (NextToken r) \<and> failing srv (NextToken r) rs e)"

text \<open>The result list of a page, empty when the page has none.\<close>

definition pageItems :: "(response \<Rightarrow> 'a list option) \<Rightarrow> response \<Rightarrow> 'a list" where
  "pageItems resultProp r = (case resultProp r of None \<Rightarrow> [] | Some xs \<Rightarrow> xs)"

text \<open>The world after requests with the given tokens were sent, in order.\<close>

definition logged :: "string option \<Rightarrow> command \<Rightarrow> string option list \<Rightarrow> world \<Rightarrow> world" where
  "logged rgn cmd toks w = w\<lparr>calls := calls w @ map (\<lambda>t. (rgn, cmd, t)) toks\<rparr>"

text \<open>What an observer sees of a run: the outcome and the requests logged.\<close>

definition observed :: "((error + 'a) \<times> world) option \<Rightarrow> ((error + 'a) \<times> (string option \<times> command \<times> string option) list) option" where
  "observed run = map_option (\<lambda>(r, w). (r, calls w)) run"

section \<open>Describing patterns built from plain text\<close>

text \<open>A text is plain when none of its characters means anything special in a
  pattern.\<close>

definition plain :: "string \<Rightarrow> bool" where
  "plain s = list_all (\<lambda>c. c \<notin> {CHR ''('', CHR '')'', CHR ''|'', CHR ''^'', CHR ''$'', CHR ''.'',
                                  CHR 0x5C, CHR ''*'', CHR ''+'', CHR ''?'', CHR ''['', CHR '']'',
                                  CHR ''{'', CHR ''}''}) s"

text \<open>The expression that the parser builds from \<open>r\<close> by reading the plain text \<open>p\<close>.\<close>

definition lits :: "rx \<Rightarrow> string \<Rightarrow> rx" where
  "lits r p = foldl (\<lambda>r c. Cat r (Chr c)) r p"

text \<open>The frame that the parser reaches from the frame \<open>(acc, Epsilon)\<close> by reading plain
  texts joined with \<open>|\<close>.\<close>

fun group_of :: "rx option \<Rightarrow> string list \<Rightarrow> frame" where
  "group_of acc [] = (acc, Epsilon)"
| "group_of acc [a] = (acc, lits Epsilon a)"
| "group_of acc (a # b # bs) = group_of (Some (close_frame (acc, lits Epsilon a))) (b # bs)"

section \<open>Describing the output\<close>

text \<open>An output operation on the apps-level directory.\<close>

fun appsLevel :: "file_op \<Rightarrow> bool" where
  "appsLevel (Mkdir dir) = False"
| "appsLevel (WriteFile dir file text) = (dir = APP_OUTPUT_DIR)"
| "appsLevel (AppendFile dir file text) = (dir = APP_OUTPUT_DIR)"
| "appsLevel (MadgeImage dir file) = (dir = APP_OUTPUT_DIR)"

text \<open>\<open>emits P m\<close>: whenever the computation \<open>m\<close> ends, the output operations it has
  issued all satisfy \<open>P\<close>, and those issued before it are still there.\<close>

definition emits :: "(file_op \<Rightarrow> bool) \<Rightarrow> 'a prog \<Rightarrow> bool" where
  "emits P m = (\<forall>w r w'. m w = Some (r, w') \<longrightarrow> (\<exists>new. ops w' = ops w @ new \<and> list_all P new))"

section \<open>An example account\<close>

text \<open>Three stacks of the staging environment: the network stack of the app \<open>bas\<close>
  exports a value that a stack of the same app and a stack of the app \<open>rtc\<close> import.\<close>

definition stagingTags :: "string \<Rightarrow> tag list" where
  "stagingTags product =
     [\<lparr>Key = Some ''balsamiq-product'', Value = Some product\<rparr>,
      \<lparr>Key = Some ''environment'', Value = Some ''staging''\<rparr>]"

definition basVpc :: stack where
  "basVpc = \<lparr>StackId = Some ''id-1'', StackName = Some ''bas-staging-vpc'', ParentId = None,
             Tags = Some (stagingTags ''bas'')\<rparr>"

definition basWeb :: stack where
  "basWeb = \<lparr>StackId = Some ''id-2'', StackName = Some ''bas-staging-web'', ParentId = None,
             Tags = Some (stagingTags ''bas'')\<rparr>"

definition rtcWeb :: stack where
  "rtcWeb = \<lparr>StackId = Some ''id-3'', StackName = Some ''rtc-staging-web'', ParentId = None,
             Tags = Some (stagingTags ''rtc'')\<rparr>"

definition exampleStacks :: "(string, stack) js_map" where
  "exampleStacks =
     [(''id-1'', basVpc), (''bas-staging-vpc'', basVpc),
      (''id-2'', basWeb), (''bas-staging-web'', basWeb),
      (''id-3'', rtcWeb), (''rtc-staging-web'', rtcWeb)]"

definition vpcExport :: export where
  "vpcExport = \<lparr>ExportingStackId = Some ''id-1'', Name = Some ''vpc-id''\<rparr>"

definition exampleExports :: "(export \<times> string list) list" where
  "exampleExports = [(vpcExport, [''bas-staging-web'', ''rtc-staging-web'', ''bas-staging-vpc''])]"

text \<open>An engine that rejects every pattern outside the fragment.\<close>

definition strictEngine :: engine where
  "strictEngine pattern s = Inl Regex_syntax_error"

definition euWest :: regionConfiguration where
  "euWest = \<lparr>region = Some ''eu-west-1'', implicit = False\<rparr>"

text \<open>The cache of a finished earlier run against the example account, in which the
  region \<open>us-east-1\<close> had no stacks, and a service that is not reachable.\<close>

definition exampleJson :: codecs where
  "exampleJson =
     \<lparr>stacksJson = \<lparr>parse = (\<lambda>text. if text = ''three stacks'' then Some [basVpc, basWeb, rtcWeb]
                                     else if text = ''[]'' then Some [] else None),
                    stringify = (\<lambda>v. if v = [] then ''[]'' else ''three stacks'')\<rparr>,
      exportsJson = \<lparr>parse = (\<lambda>text. if text = ''one export'' then Some [vpcExport]
                                      else if text = ''[]'' then Some [] else None),
                     stringify = (\<lambda>v. if v = [] then ''[]'' else ''one export'')\<rparr>,
      importsJson = \<lparr>parse = (\<lambda>text. if text = ''three imports''
                                      then Some [''bas-staging-web'', ''rtc-staging-web'', ''bas-staging-vpc'']
                                      else if text = ''[]'' then Some [] else None),
                     stringify = (\<lambda>v. if v = [] then ''[]'' else ''three imports'')\<rparr>\<rparr>"

definition exampleWorld :: world where
  "exampleWorld =
     \<lparr>service = (\<lambda>rgn cmd tok. Inl (Other_error ''offline'')),
      calls = [],
      cache_files = (\<lambda>path. if path = ''eu-west-1_stacks.cache.json'' then Some (Inr ''three stacks'')
                             else if path = ''eu-west-1_exports.cache.json'' then Some (Inr ''one export'')
                             else if path = ''eu-west-1_cfListImports-vpc-id'' then Some (Inr ''three imports'')
                             else if path = ''us-east-1_stacks.cache.json'' then Some (Inr ''[]'')
                             else if path = ''us-east-1_exports.cache.json'' then Some (Inr ''[]'')
                             else None),
      ops = []\<rparr>"

section \<open>Node names: what the two operations return\<close>




section \<open>The pagination loop\<close>

lemma loop_pages:
  "pagination (service w rgn cmd) tok rs \<Longrightarrow>
   consumeAllTokens_loop rgn cmd resultProp acc tok w =
     Some (Inr (acc @ concat (map (pageItems resultProp) rs)),
           logged rgn cmd (tok # map NextToken (butlast rs)) w)"
proof (induction rs arbitrary: tok acc w)
  case Nil
  then show ?case by simp
next
  case (Cons r rs)
  show ?case
  proof (cases rs)
    case Nil
    with Cons.prems show ?thesis
      by (subst consumeAllTokens_loop.simps)
         (simp add: send_def pageItems_def logged_def split: option.splits)
  next
    case (Cons r' rs')
    with Cons.prems have srv: "service w rgn cmd tok = Inr r" and more: "truthy (NextToken r)"
      and rest: "pagination (service w rgn cmd) (NextToken r) rs" by simp_all
    let ?w = "w\<lparr>calls := calls w @ [(rgn, cmd, tok)]\<rparr>"
    from rest have "pagination (service ?w rgn cmd) (NextToken r) rs" by simp
    from Cons.IH [OF this]
    have ih: "\<And>acc. consumeAllTokens_loop rgn cmd resultProp acc (NextToken r) ?w =
      Some (Inr (acc @ concat (map (pageItems resultProp) rs)),
            logged rgn cmd (NextToken r # map NextToken (butlast rs)) ?w)" .
    show ?thesis
      using srv more Cons
      by (subst consumeAllTokens_loop.simps)
         (simp add: send_def ih pageItems_def logged_def split: option.splits)
  qed
qed

lemma loop_failing:
  "failing (service w rgn cmd) tok rs e \<Longrightarrow>
   consumeAllTokens_loop rgn cmd resultProp acc tok w =
     Some (Inl e, logged rgn cmd (tok # map NextToken rs) w)"
proof (induction rs arbitrary: tok acc w)
  case Nil
  then show ?case
    by (subst consumeAllTokens_loop.simps) (simp add: send_def logged_def)
next
  case (Cons r rs)
  then have srv: "service w rgn cmd tok = Inr r" and more: "truthy (NextToken r)"
    and rest: "failing (service w rgn cmd) (NextToken r) rs e" by simp_all
  let ?w = "w\<lparr>calls := calls w @ [(rgn, cmd, tok)]\<rparr>"
  from rest have "failing (service ?w rgn cmd) (NextToken r) rs e" by simp
  from Cons.IH [OF this]
  have ih: "\<And>acc. consumeAllTokens_loop rgn cmd resultProp acc (NextToken r) ?w =
      Some (Inl e, logged rgn cmd (NextToken r # map NextToken rs) ?w)" .
  show ?case
    using srv more
    by (subst consumeAllTokens_loop.simps) (simp add: send_def ih logged_def)
qed

lemma consumeAllTokens_pages:
  "pagination (service w rgn cmd) None rs \<Longrightarrow>
   consumeAllTokens rgn cmd resultProp w =
     Some (Inr (concat (map (pageItems resultProp) rs)),
           logged rgn cmd (None # map NextToken (butlast rs)) w)"
  using loop_pages [of w rgn cmd None rs resultProp "[]"] by (simp add: consumeAllTokens_def)

lemma consumeAllTokens_failing:
  "failing (service w rgn cmd) None rs e \<Longrightarrow>
   consumeAllTokens rgn cmd resultProp w =
     Some (Inl e, logged rgn cmd (None # map NextToken rs) w)"
  using loop_failing [of w rgn cmd None rs e resultProp "[]"] by (simp add: consumeAllTokens_def)

lemma listImports_pages:
  "pagination (service w rgn (ListImportsCommand exportName)) None rs \<Longrightarrow>
   listImports rgn exportName w =
     Some (Inr (concat (map (pageItems Imports) rs)),
           logged rgn (ListImportsCommand exportName) (None # map NextToken (butlast rs)) w)"
  by (simp add: listImports_def consumeAllTokens_pages)

section \<open>Paginated operations\<close>

text \<open>
  Claim C6. When the service answers the first request (sent without a token) with a
  page, answers each request carrying a page's \<open>NextToken\<close> with the next page, and the
  last page is the first whose \<open>NextToken\<close> is missing (or empty), each of describe
  stacks, list exports and list imports returns: its result is the concatenation of
  the result lists of the pages in the order received, a page without a result list
  contributing nothing; the requests sent are one per page, the first without a token
  and every next one with the \<open>NextToken\<close> of the page before it, and none after the
  last page.
\<close>

theorem paginated_operations:
  "(pagination (service w rgn DescribeStacksCommand) None rs \<longrightarrow>
      describeStacks rgn w =
        Some (Inr (concat (map (pageItems Stacks) rs)),
              logged rgn DescribeStacksCommand (None # map NextToken (butlast rs)) w)) \<and>
   (pagination (service w rgn ListExportsCommand) None rs \<longrightarrow>
      listExports rgn w =
        Some (Inr (concat (map (pageItems Exports) rs)),
              logged rgn ListExportsCommand (None # map NextToken (butlast rs)) w)) \<and>
   (pagination (service w rgn (ListImportsCommand exportName)) None rs \<longrightarrow>
      listImports rgn exportName w =
        Some (Inr (concat (map (pageItems Imports) rs)),
              logged rgn (ListImportsCommand exportName) (None # map NextToken (butlast rs)) w))"
  by (simp add: describeStacks_def listExports_def consumeAllTokens_pages listImports_pages)

theorem paginated_operations_witness:
  "observed (listImports (Some ''eu-west-1'') ''bas-staging-vpc''
     \<lparr>service = (\<lambda>rgn cmd tok.
         if tok = None
         then Inr \<lparr>Stacks = None, Exports = None, Imports = Some [''bas-staging-web'', ''bas-staging-api''],
                   NextToken = Some ''t1''\<rparr>
         else if tok = Some ''t1''
         then Inr \<lparr>Stacks = None, Exports = None, Imports = None, NextToken = Some ''t2''\<rparr>
         else Inr \<lparr>Stacks = None, Exports = None, Imports = Some [''rtc-staging-web''],
                   NextToken = None\<rparr>),
      calls = [], cache_files = (\<lambda>_. None), ops = []\<rparr>)
   = Some (Inr [''bas-staging-web'', ''bas-staging-api'', ''rtc-staging-web''],
           [(Some ''eu-west-1'', ListImportsCommand ''bas-staging-vpc'', None),
            (Some ''eu-west-1'', ListImportsCommand ''bas-staging-vpc'', Some ''t1''),
            (Some ''eu-west-1'', ListImportsCommand ''bas-staging-vpc'', Some ''t2'')])"
  using paginated_operations
    [of "\<lparr>service = (\<lambda>rgn cmd tok.
         if tok = None
         then Inr \<lparr>Stacks = None, Exports = None, Imports = Some [''bas-staging-web'', ''bas-staging-api''],
                   NextToken = Some ''t1''\<rparr>
         else if tok = Some ''t1''
         then Inr \<lparr>Stacks = None, Exports = None, Imports = None, NextToken = Some ''t2''\<rparr>
         else Inr \<lparr>Stacks = None, Exports = None, Imports = Some [''rtc-staging-web''],
                   NextToken = None\<rparr>),
      calls = [], cache_files = (\<lambda>_. None), ops = []\<rparr>"
      "Some ''eu-west-1''"
      "[\<lparr>Stacks = None, Exports = None, Imports = Some [''bas-staging-web'', ''bas-staging-api''],
         NextToken = Some ''t1''\<rparr>,
        \<lparr>Stacks = None, Exports = None, Imports = None, NextToken = Some ''t2''\<rparr>,
        \<lparr>Stacks = None, Exports = None, Imports = Some [''rtc-staging-web''], NextToken = None\<rparr>]"
      "''bas-staging-vpc''"]
  by (simp add: truthy_def observed_def logged_def pageItems_def)

section \<open>Exports that nobody imports\<close>

text \<open>
  Claim C9. When the service, after any number of pages, fails a list-imports request
  with an error, \<open>listImports\<close> returns the empty list if the error is a
  \<open>CloudFormationServiceException\<close> whose message is exactly
  \<open>Export 'NAME' is not imported by any stack.\<close> for the export name asked for, and
  throws that same error otherwise.
\<close>

theorem listImports_not_imported:
  "failing (service w rgn (ListImportsCommand exportName)) None rs e \<Longrightarrow>
   listImports rgn exportName w =
     Some (if e = CloudFormationServiceException
                    (''Export '' @ [CHR 0x27] @ exportName @ [CHR 0x27] @ '' is not imported by any stack.'')
           then Inr [] else Inl e,
           logged rgn (ListImportsCommand exportName) (None # map NextToken rs) w)"
  by (simp add: listImports_def consumeAllTokens_failing notImportedMessage_def)

theorem listImports_not_imported_witness:
  "observed (listImports None ''vpc-id''
     \<lparr>service = (\<lambda>rgn cmd tok. Inl (CloudFormationServiceException
                   (''Export '' @ [CHR 0x27] @ ''vpc-id'' @ [CHR 0x27] @ '' is not imported by any stack.''))),
      calls = [], cache_files = (\<lambda>_. None), ops = []\<rparr>)
     = Some (Inr [], [(None, ListImportsCommand ''vpc-id'', None)]) \<and>
   observed (listImports None ''vpc-id''
     \<lparr>service = (\<lambda>rgn cmd tok. Inl (CloudFormationServiceException ''Rate exceeded'')),
      calls = [], cache_files = (\<lambda>_. None), ops = []\<rparr>)
     = Some (Inl (CloudFormationServiceException ''Rate exceeded''),
             [(None, ListImportsCommand ''vpc-id'', None)])"
  using
    listImports_not_imported [of
      "\<lparr>service = (\<lambda>rgn cmd tok. Inl (CloudFormationServiceException
                   (''Export '' @ [CHR 0x27] @ ''vpc-id'' @ [CHR 0x27] @ '' is not imported by any stack.''))),
      calls = [], cache_files = (\<lambda>_. None), ops = []\<rparr>" None "''vpc-id''" "[]"
      "CloudFormationServiceException
                   (''Export '' @ [CHR 0x27] @ ''vpc-id'' @ [CHR 0x27] @ '' is not imported by any stack.'')"]
    listImports_not_imported [of
      "\<lparr>service = (\<lambda>rgn cmd tok. Inl (CloudFormationServiceException ''Rate exceeded'')),
      calls = [], cache_files = (\<lambda>_. None), ops = []\<rparr>" None "''vpc-id''" "[]"
      "CloudFormationServiceException ''Rate exceeded''"]
  by (simp add: observed_def logged_def)

section \<open>The read-through cache\<close>

text \<open>
  Claim C3, as amended. When the cache file of the key exists and is not empty,
  \<open>cacheOrWork\<close> returns what \<open>JSON.parse\<close> makes of its contents (and throws when the
  contents do not parse); the world is left as it was, so the work function did not
  run and no request was sent. When the cache file does not exist, or exists and is
  empty, the work function runs once from the world as it is: if it returns, its
  result is written under the key as \<open>JSON.stringify\<close> prints it and the same result is
  returned; if it throws, the error is thrown on and nothing is written. A file that
  cannot be read for another reason than not existing makes \<open>cacheOrWork\<close> throw.
\<close>

theorem cacheOrWork_read_through:
  "(cache_files w path = Some (Inr contents) \<and> contents \<noteq> [] \<and> parse c contents = Some v \<longrightarrow>
      cacheOrWork c path work w = Some (Inr v, w)) \<and>
   (cache_files w path = Some (Inr contents) \<and> contents \<noteq> [] \<and> parse c contents = None \<longrightarrow>
      cacheOrWork c path work w = Some (Inl Json_syntax_error, w)) \<and>
   (cache_files w path = Some (Inl e) \<longrightarrow> cacheOrWork c path work w = Some (Inl e, w)) \<and>
   ((cache_files w path = None \<or> cache_files w path = Some (Inr [])) \<and>
    work w = Some (Inr result, w') \<longrightarrow>
      cacheOrWork c path work w =
        Some (Inr result, w'\<lparr>cache_files := (cache_files w')(path := Some (Inr (stringify c result)))\<rparr>)) \<and>
   ((cache_files w path = None \<or> cache_files w path = Some (Inr [])) \<and>
    work w = Some (Inl e, w') \<longrightarrow>
      cacheOrWork c path work w = Some (Inl e, w')) \<and>
   ((cache_files w path = None \<or> cache_files w path = Some (Inr [])) \<and> work w = None \<longrightarrow>
      cacheOrWork c path work w = None)"
  by (auto simp: cacheOrWork_def await_def readFileOrNull_def truthy_def template_def
        returns_def throws_def writeCacheFile_def)

theorem cacheOrWork_read_through_witness:
  "observed (cacheOrWork
       \<lparr>parse = (\<lambda>s. if s = ''[]'' then Some [] else None), stringify = (\<lambda>xs. ''[]'')\<rparr>
       ''eu-west-1_exports.cache.json'' (listExports (Some ''eu-west-1''))
       \<lparr>service = (\<lambda>rgn cmd tok. Inl (Other_error ''offline'')), calls = [],
        cache_files = (\<lambda>p. if p = ''eu-west-1_exports.cache.json'' then Some (Inr ''[]'') else None),
        ops = []\<rparr>)
     = Some (Inr [], []) \<and>
   map_option (\<lambda>(r, w). (r, calls w, cache_files w ''eu-west-1_exports.cache.json''))
     (cacheOrWork
       \<lparr>parse = (\<lambda>s. if s = ''[]'' then Some [] else None), stringify = (\<lambda>xs. ''[]'')\<rparr>
       ''eu-west-1_exports.cache.json'' (listExports (Some ''eu-west-1''))
       \<lparr>service = (\<lambda>rgn cmd tok. Inr \<lparr>Stacks = None, Exports = Some [], Imports = None,
                                       NextToken = None\<rparr>),
        calls = [], cache_files = (\<lambda>p. None), ops = []\<rparr>)
     = Some (Inr [], [(Some ''eu-west-1'', ListExportsCommand, None)], Some (Inr ''[]''))"
proof -
  let ?c = "\<lparr>parse = (\<lambda>s. if s = ''[]'' then Some ([] :: export list) else None),
             stringify = (\<lambda>xs. ''[]'')\<rparr>"
  let ?hit = "\<lparr>service = (\<lambda>rgn cmd tok. Inl (Other_error ''offline'')), calls = [],
        cache_files = (\<lambda>p. if p = ''eu-west-1_exports.cache.json'' then Some (Inr ''[]'') else None),
        ops = []\<rparr>"
  let ?page = "\<lparr>Stacks = None, Exports = Some [], Imports = None, NextToken = None\<rparr>"
  let ?miss = "\<lparr>service = (\<lambda>rgn cmd tok. Inr ?page),
        calls = [], cache_files = (\<lambda>p. None), ops = []\<rparr>"
  have work: "listExports (Some ''eu-west-1'') ?miss =
      Some (Inr [], logged (Some ''eu-west-1'') ListExportsCommand [None] ?miss)"
    using consumeAllTokens_pages [of ?miss "Some ''eu-west-1''" ListExportsCommand "[?page]" Exports]
    by (simp add: listExports_def truthy_def pageItems_def)
  show ?thesis
    using
      cacheOrWork_read_through [of ?hit "''eu-west-1_exports.cache.json''" "''[]''" ?c "[]"
        "listExports (Some ''eu-west-1'')"]
      cacheOrWork_read_through [of ?miss "''eu-west-1_exports.cache.json''" "[]" ?c "[]"
        "listExports (Some ''eu-west-1'')" _ "[]"
        "logged (Some ''eu-west-1'') ListExportsCommand [None] ?miss"]
      work
    by (simp add: observed_def logged_def)
qed

text \<open>
  The claim as stated fails for a cache file that exists and is empty: the work
  function runs (here it sends a request to the service) although the file exists.
\<close>

theorem cacheOrWork_read_through_counterexample:
  "cache_files
     \<lparr>service = (\<lambda>rgn cmd tok. Inr \<lparr>Stacks = None, Exports = Some [], Imports = None,
                                     NextToken = None\<rparr>),
      calls = [], cache_files = (\<lambda>p. Some (Inr [])), ops = []\<rparr>
     ''eu-west-1_exports.cache.json'' = Some (Inr []) \<and>
   observed (cacheOrWork
       \<lparr>parse = (\<lambda>s. if s = ''[]'' then Some [] else None), stringify = (\<lambda>xs. ''[]'')\<rparr>
       ''eu-west-1_exports.cache.json'' (listExports (Some ''eu-west-1''))
       \<lparr>service = (\<lambda>rgn cmd tok. Inr \<lparr>Stacks = None, Exports = Some [], Imports = None,
                                       NextToken = None\<rparr>),
        calls = [], cache_files = (\<lambda>p. Some (Inr [])), ops = []\<rparr>)
     = Some (Inr [], [(Some ''eu-west-1'', ListExportsCommand, None)])"
proof -
  let ?page = "\<lparr>Stacks = None, Exports = Some [], Imports = None, NextToken = None\<rparr>"
  let ?w = "\<lparr>service = (\<lambda>rgn cmd tok. Inr ?page),
        calls = [], cache_files = (\<lambda>p. Some (Inr [])), ops = []\<rparr>"
  have "listExports (Some ''eu-west-1'') ?w =
      Some (Inr [], logged (Some ''eu-west-1'') ListExportsCommand [None] ?w)"
    using consumeAllTokens_pages [of ?w "Some ''eu-west-1''" ListExportsCommand "[?page]" Exports]
    by (simp add: listExports_def truthy_def pageItems_def)
  then show ?thesis
    by (simp add: cacheOrWork_def await_def readFileOrNull_def truthy_def observed_def
          logged_def writeCacheFile_def)
qed

section \<open>The map of stacks\<close>

lemma map_of_map_set: "map_of (map_set k v m) = (map_of m)(k \<mapsto> v)"
  by (induction m) (auto simp: fun_eq_iff)

lemma map_get_map_set: "map_get (map_set k v m) k' = (if k' = k then Some v else map_get m k')"
  by (simp add: map_get_def map_of_map_set)

lemma find_append_cases:
  "find P (xs @ ys) = (case find P xs of None \<Rightarrow> find P ys | Some y \<Rightarrow> Some y)"
  by (induction xs) auto

lemma find_snoc:
  "find P (xs @ [x]) = (case find P xs of None \<Rightarrow> (if P x then Some x else None) | Some y \<Rightarrow> Some y)"
  by (simp add: find_append_cases split: option.splits)

lemma getStacks_reduce_invalid:
  "\<exists>s\<in>set stacks. \<not> truthy (StackId s) \<or> \<not> truthy (StackName s) \<Longrightarrow>
   getStacks_reduce acc stacks = Inl Invalid_stack"
  by (induction stacks arbitrary: acc) auto

lemma getStacks_reduce_valid:
  "\<forall>s\<in>set stacks. truthy (StackId s) \<and> truthy (StackName s) \<Longrightarrow>
   \<exists>m. getStacks_reduce acc stacks = Inr m \<and>
       (\<forall>k. map_get m k =
          (case find (\<lambda>s. StackId s = Some k \<or> StackName s = Some k) (rev stacks) of
             None \<Rightarrow> map_get acc k
           | Some s \<Rightarrow> Some s))"
proof (induction stacks arbitrary: acc)
  case Nil
  then show ?case by simp
next
  case (Cons s stacks)
  let ?acc = "map_set (template (StackName s)) s (map_set (template (StackId s)) s acc)"
  from Cons.prems have ok: "truthy (StackId s)" "truthy (StackName s)"
    and rest: "\<forall>s\<in>set stacks. truthy (StackId s) \<and> truthy (StackName s)" by simp_all
  from Cons.IH [OF rest, of ?acc] obtain m where
    m: "getStacks_reduce ?acc stacks = Inr m"
    and look: "\<And>k. map_get m k =
          (case find (\<lambda>s. StackId s = Some k \<or> StackName s = Some k) (rev stacks) of
             None \<Rightarrow> map_get ?acc k
           | Some s \<Rightarrow> Some s)" by blast
  from ok have keys: "\<And>k. (StackId s = Some k \<or> StackName s = Some k) \<longleftrightarrow>
      (k = template (StackName s) \<or> k = template (StackId s))"
    by (auto simp: truthy_def template_def split: option.splits)
  have "getStacks_reduce acc (s # stacks) = Inr m"
    using ok m by simp
  moreover have "map_get m k =
          (case find (\<lambda>s. StackId s = Some k \<or> StackName s = Some k) (rev (s # stacks)) of
             None \<Rightarrow> map_get acc k
           | Some s \<Rightarrow> Some s)" for k
    using keys [of k] by (simp add: look find_snoc map_get_map_set split: option.splits)
  ultimately show ?case by blast
qed

lemma find_last_occurrence:
  assumes "P s" and "\<forall>t\<in>set after. \<not> P t"
  shows "find P (rev (before @ s # after)) = Some s"
proof -
  from assms(2) have "find P (rev after) = None" by (simp add: find_None_iff)
  with assms(1) show ?thesis by (simp add: find_append_cases)
qed

lemma getStacks_reduce_lookup:
  assumes "\<forall>s\<in>set stacks. truthy (StackId s) \<and> truthy (StackName s)"
  shows "\<exists>m. getStacks_reduce [] stacks = Inr m \<and>
    (\<forall>k. map_get m k = find (\<lambda>s. StackId s = Some k \<or> StackName s = Some k) (rev stacks))"
proof -
  from getStacks_reduce_valid [OF assms, of "[]"] obtain m where
    m: "getStacks_reduce [] stacks = Inr m"
    and look: "\<And>k. map_get m k =
          (case find (\<lambda>s. StackId s = Some k \<or> StackName s = Some k) (rev stacks) of
             None \<Rightarrow> map_get [] k
           | Some s \<Rightarrow> Some s)" by blast
  have "map_get m k = find (\<lambda>s. StackId s = Some k \<or> StackName s = Some k) (rev stacks)" for k
    using look [of k] by (simp add: map_get_def split: option.splits)
  with m show ?thesis by blast
qed

section \<open>The map returned by getStacks\<close>

text \<open>
  Claim C10, as amended. Let \<open>stacks\<close> be the stacks fetched (from the cache or from the
  service). If one of them has no \<open>StackId\<close> or no \<open>StackName\<close> (or an empty one),
  \<open>getStacks\<close> throws. Otherwise it returns a map that holds, under every key, the last
  fetched stack that has this key as its \<open>StackId\<close> or as its \<open>StackName\<close>, and nothing
  under a key that no stack has. So a fetched stack is found under both its \<open>StackId\<close>
  and its \<open>StackName\<close>, and both give that same record, provided no stack fetched
  after it has one of these two keys as its own \<open>StackId\<close> or \<open>StackName\<close>.
\<close>

theorem getStacks_map:
  assumes "cacheOrWork (stacksJson json) (template rgn @ ''_stacks.cache.json'') (describeStacks rgn) w
             = Some (Inr stacks, w')"
  shows "((\<exists>s\<in>set stacks. \<not> truthy (StackId s) \<or> \<not> truthy (StackName s)) \<longrightarrow>
            getStacks json rgn w = Some (Inl Invalid_stack, w')) \<and>
         ((\<forall>s\<in>set stacks. truthy (StackId s) \<and> truthy (StackName s)) \<longrightarrow>
            (\<exists>m. getStacks json rgn w = Some (Inr m, w') \<and>
                 (\<forall>k. map_get m k = find (\<lambda>s. StackId s = Some k \<or> StackName s = Some k) (rev stacks)) \<and>
                 (\<forall>before s after.
                    stacks = before @ s # after \<and>
                    (\<forall>t\<in>set after. StackId t \<noteq> StackId s \<and> StackId t \<noteq> StackName s \<and>
                                    StackName t \<noteq> StackId s \<and> StackName t \<noteq> StackName s)
                    \<longrightarrow> map_get m (template (StackId s)) = Some s \<and>
                        map_get m (template (StackName s)) = Some s)))"
proof (intro conjI impI)
  assume "\<exists>s\<in>set stacks. \<not> truthy (StackId s) \<or> \<not> truthy (StackName s)"
  then show "getStacks json rgn w = Some (Inl Invalid_stack, w')"
    using assms by (simp add: getStacks_def await_def getStacks_reduce_invalid throws_def)
next
  assume valid: "\<forall>s\<in>set stacks. truthy (StackId s) \<and> truthy (StackName s)"
  from getStacks_reduce_lookup [OF valid] obtain m where
    m: "getStacks_reduce [] stacks = Inr m"
    and look: "\<And>k. map_get m k = find (\<lambda>s. StackId s = Some k \<or> StackName s = Some k) (rev stacks)"
    by blast
  have run: "getStacks json rgn w = Some (Inr m, w')"
    using assms m by (simp add: getStacks_def await_def returns_def)
  have both: "map_get m (template (StackId s)) = Some s \<and> map_get m (template (StackName s)) = Some s"
    if split: "stacks = before @ s # after"
      and later: "\<forall>t\<in>set after. StackId t \<noteq> StackId s \<and> StackId t \<noteq> StackName s \<and>
                                    StackName t \<noteq> StackId s \<and> StackName t \<noteq> StackName s"
    for before s after
  proof -
    from valid split have ok: "truthy (StackId s)" "truthy (StackName s)" by simp_all
    then have ids: "StackId s = Some (template (StackId s))" "StackName s = Some (template (StackName s))"
      by (auto simp: truthy_def template_def split: option.splits)
    have "find (\<lambda>t. StackId t = Some (template (StackId s)) \<or> StackName t = Some (template (StackId s)))
            (rev (before @ s # after)) = Some s"
      using ids later by (intro find_last_occurrence) auto
    moreover have "find (\<lambda>t. StackId t = Some (template (StackName s)) \<or> StackName t = Some (template (StackName s)))
            (rev (before @ s # after)) = Some s"
      using ids later by (intro find_last_occurrence) auto
    ultimately show ?thesis by (simp add: look split)
  qed
  from run look both
  show "\<exists>m. getStacks json rgn w = Some (Inr m, w') \<and>
                 (\<forall>k. map_get m k = find (\<lambda>s. StackId s = Some k \<or> StackName s = Some k) (rev stacks)) \<and>
                 (\<forall>before s after.
                    stacks = before @ s # after \<and>
                    (\<forall>t\<in>set after. StackId t \<noteq> StackId s \<and> StackId t \<noteq> StackName s \<and>
                                    StackName t \<noteq> StackId s \<and> StackName t \<noteq> StackName s)
                    \<longrightarrow> map_get m (template (StackId s)) = Some s \<and>
                        map_get m (template (StackName s)) = Some s)"
    by blast
qed

theorem getStacks_map_witness:
  "(\<exists>m. map_option fst
       (getStacks
          \<lparr>stacksJson = \<lparr>parse = (\<lambda>text. if text = ''two stacks'' then Some
                [\<lparr>StackId = Some ''id-1'', StackName = Some ''bas-staging-web'', ParentId = None, Tags = None\<rparr>,
                 \<lparr>StackId = Some ''id-2'', StackName = Some ''bas-staging-api'', ParentId = None, Tags = None\<rparr>]
              else None), stringify = (\<lambda>v. ''two stacks'')\<rparr>,
           exportsJson = \<lparr>parse = (\<lambda>text. None), stringify = (\<lambda>v. [])\<rparr>,
           importsJson = \<lparr>parse = (\<lambda>text. None), stringify = (\<lambda>v. [])\<rparr>\<rparr>
          (Some ''eu-west-1'')
          \<lparr>service = (\<lambda>rgn cmd tok. Inl (Other_error ''offline'')), calls = [],
           cache_files = (\<lambda>p. if p = ''eu-west-1_stacks.cache.json'' then Some (Inr ''two stacks'') else None),
           ops = []\<rparr>) = Some (Inr m) \<and>
      map_get m ''id-1'' =
        Some \<lparr>StackId = Some ''id-1'', StackName = Some ''bas-staging-web'', ParentId = None, Tags = None\<rparr> \<and>
      map_get m ''bas-staging-web'' =
        Some \<lparr>StackId = Some ''id-1'', StackName = Some ''bas-staging-web'', ParentId = None, Tags = None\<rparr>) \<and>
   map_option fst
       (getStacks
          \<lparr>stacksJson = \<lparr>parse = (\<lambda>text. if text = ''no name'' then Some
                [\<lparr>StackId = Some ''id-1'', StackName = None, ParentId = None, Tags = None\<rparr>]
              else None), stringify = (\<lambda>v. ''no name'')\<rparr>,
           exportsJson = \<lparr>parse = (\<lambda>text. None), stringify = (\<lambda>v. [])\<rparr>,
           importsJson = \<lparr>parse = (\<lambda>text. None), stringify = (\<lambda>v. [])\<rparr>\<rparr>
          (Some ''eu-west-1'')
          \<lparr>service = (\<lambda>rgn cmd tok. Inl (Other_error ''offline'')), calls = [],
           cache_files = (\<lambda>p. if p = ''eu-west-1_stacks.cache.json'' then Some (Inr ''no name'') else None),
           ops = []\<rparr>) = Some (Inl Invalid_stack)"
proof -
  let ?s1 = "\<lparr>StackId = Some ''id-1'', StackName = Some ''bas-staging-web'', ParentId = None, Tags = None\<rparr>"
  let ?s2 = "\<lparr>StackId = Some ''id-2'', StackName = Some ''bas-staging-api'', ParentId = None, Tags = None\<rparr>"
  let ?bad = "\<lparr>StackId = Some ''id-1'', StackName = None, ParentId = None, Tags = None\<rparr>"
  let ?none = "\<lparr>parse = (\<lambda>text :: string. None), stringify = (\<lambda>v. [])\<rparr>"
  let ?j1 = "\<lparr>stacksJson = \<lparr>parse = (\<lambda>text. if text = ''two stacks'' then Some [?s1, ?s2] else None),
                               stringify = (\<lambda>v. ''two stacks'')\<rparr>,
              exportsJson = ?none, importsJson = ?none\<rparr>"
  let ?j2 = "\<lparr>stacksJson = \<lparr>parse = (\<lambda>text. if text = ''no name'' then Some [?bad] else None),
                               stringify = (\<lambda>v. ''no name'')\<rparr>,
              exportsJson = ?none, importsJson = ?none\<rparr>"
  let ?w1 = "\<lparr>service = (\<lambda>rgn cmd tok. Inl (Other_error ''offline'')), calls = [],
           cache_files = (\<lambda>p. if p = ''eu-west-1_stacks.cache.json'' then Some (Inr ''two stacks'') else None),
           ops = []\<rparr>"
  let ?w2 = "\<lparr>service = (\<lambda>rgn cmd tok. Inl (Other_error ''offline'')), calls = [],
           cache_files = (\<lambda>p. if p = ''eu-west-1_stacks.cache.json'' then Some (Inr ''no name'') else None),
           ops = []\<rparr>"
  have hit1: "cacheOrWork (stacksJson ?j1) (template (Some ''eu-west-1'') @ ''_stacks.cache.json'')
      (describeStacks (Some ''eu-west-1'')) ?w1 = Some (Inr [?s1, ?s2], ?w1)"
    by (simp add: cacheOrWork_def await_def readFileOrNull_def truthy_def template_def returns_def)
  have hit2: "cacheOrWork (stacksJson ?j2) (template (Some ''eu-west-1'') @ ''_stacks.cache.json'')
      (describeStacks (Some ''eu-west-1'')) ?w2 = Some (Inr [?bad], ?w2)"
    by (simp add: cacheOrWork_def await_def readFileOrNull_def truthy_def template_def returns_def)
  have valid: "\<forall>s\<in>set [?s1, ?s2]. truthy (StackId s) \<and> truthy (StackName s)"
    by (simp add: truthy_def)
  have invalid: "\<exists>s\<in>set [?bad]. \<not> truthy (StackId s) \<or> \<not> truthy (StackName s)"
    by (simp add: truthy_def)
  from getStacks_map [OF hit1, THEN conjunct2, THEN mp, OF valid] obtain m where
    run: "getStacks ?j1 (Some ''eu-west-1'') ?w1 = Some (Inr m, ?w1)"
    and both: "\<forall>before s after. [?s1, ?s2] = before @ s # after \<and>
       (\<forall>t\<in>set after. StackId t \<noteq> StackId s \<and> StackId t \<noteq> StackName s \<and>
                       StackName t \<noteq> StackId s \<and> StackName t \<noteq> StackName s) \<longrightarrow>
       map_get m (template (StackId s)) = Some s \<and> map_get m (template (StackName s)) = Some s"
    by blast
  from both [rule_format, of "[]" ?s1 "[?s2]"]
  have "map_get m ''id-1'' = Some ?s1 \<and> map_get m ''bas-staging-web'' = Some ?s1"
    by (simp add: template_def)
  moreover from getStacks_map [OF hit2, THEN conjunct1, THEN mp, OF invalid]
  have "getStacks ?j2 (Some ''eu-west-1'') ?w2 = Some (Inl Invalid_stack, ?w2)" .
  ultimately show ?thesis using run by simp
qed

text \<open>
  The claim as stated fails when two fetched stacks share a key: of two stacks with
  the same \<open>StackName\<close>, the first is found under its \<open>StackId\<close>, but its \<open>StackName\<close>
  gives the second stack.
\<close>

theorem getStacks_map_counterexample:
  "map_option fst
     (getStacks
        \<lparr>stacksJson = \<lparr>parse = (\<lambda>text. if text = ''same name'' then Some
              [\<lparr>StackId = Some ''id-1'', StackName = Some ''web'', ParentId = None, Tags = None\<rparr>,
               \<lparr>StackId = Some ''id-2'', StackName = Some ''web'', ParentId = None, Tags = None\<rparr>]
            else None), stringify = (\<lambda>v. ''same name'')\<rparr>,
         exportsJson = \<lparr>parse = (\<lambda>text. None), stringify = (\<lambda>v. [])\<rparr>,
         importsJson = \<lparr>parse = (\<lambda>text. None), stringify = (\<lambda>v. [])\<rparr>\<rparr>
        (Some ''eu-west-1'')
        \<lparr>service = (\<lambda>rgn cmd tok. Inl (Other_error ''offline'')), calls = [],
         cache_files = (\<lambda>p. if p = ''eu-west-1_stacks.cache.json'' then Some (Inr ''same name'') else None),
         ops = []\<rparr>)
   = Some (Inr
       [(''id-1'', \<lparr>StackId = Some ''id-1'', StackName = Some ''web'', ParentId = None, Tags = None\<rparr>),
        (''web'', \<lparr>StackId = Some ''id-2'', StackName = Some ''web'', ParentId = None, Tags = None\<rparr>),
        (''id-2'', \<lparr>StackId = Some ''id-2'', StackName = Some ''web'', ParentId = None, Tags = None\<rparr>)])"
  by (simp add: getStacks_def cacheOrWork_def await_def readFileOrNull_def truthy_def template_def
        returns_def)

section \<open>Patterns built from plain text\<close>

lemma plain_Cons: "plain (c # p) \<longleftrightarrow> plain [c] \<and> plain p"
  by (simp add: plain_def)

lemma plain_append: "plain (p @ q) \<longleftrightarrow> plain p \<and> plain q"
  by (simp add: plain_def)

lemma lits_Nil: "lits r [] = r"
  by (simp add: lits_def)

lemma lits_Cons: "lits r (c # p) = lits (Cat r (Chr c)) p"
  by (simp add: lits_def)

lemma lits_snoc: "lits r (p @ [c]) = Cat (lits r p) (Chr c)"
  by (simp add: lits_def)

lemma lits_append: "lits r (p @ q) = lits (lits r p) q"
  by (simp add: lits_def)

lemma parse_plain:
  "plain p \<Longrightarrow> regex_parse f outer (p @ rest) = regex_parse (fst f, lits (snd f) p) outer rest"
proof (induction p arbitrary: f)
  case Nil
  then show ?case by (simp add: lits_Nil)
next
  case (Cons c p)
  from Cons.prems have c: "plain [c]" and p: "plain p" by (simp_all add: plain_def)
  from c have "regex_parse f outer ((c # p) @ rest) = regex_parse (add_atom (Chr c) f) outer (p @ rest)"
    by (simp add: plain_def)
  also have "\<dots> = regex_parse (fst f, lits (snd f) (c # p)) outer rest"
    using Cons.IH [OF p, of "add_atom (Chr c) f"] by (simp add: add_atom_def lits_Cons)
  finally show ?case .
qed

lemma parse_join:
  "\<forall>a\<in>set apps. plain a \<Longrightarrow>
   regex_parse (acc, Epsilon) outer (join ''|'' apps @ rest) = regex_parse (group_of acc apps) outer rest"
proof (induction acc apps rule: group_of.induct)
  case (1 acc)
  then show ?case by simp
next
  case (2 acc a)
  then show ?case using parse_plain [of a "(acc, Epsilon)" outer rest] by simp
next
  case (3 acc a b bs)
  from 3(2) have a: "plain a" and rest: "\<forall>a\<in>set (b # bs). plain a" by simp_all
  have "regex_parse (acc, Epsilon) outer (join ''|'' (a # b # bs) @ rest)
        = regex_parse (acc, Epsilon) outer (a @ (CHR ''|'' # join ''|'' (b # bs) @ rest))" by simp
  also have "\<dots> = regex_parse (acc, lits Epsilon a) outer (CHR ''|'' # join ''|'' (b # bs) @ rest)"
    using parse_plain [OF a, of "(acc, Epsilon)"] by simp
  also have "\<dots> = regex_parse (Some (close_frame (acc, lits Epsilon a)), Epsilon) outer (join ''|'' (b # bs) @ rest)"
    by simp
  also have "\<dots> = regex_parse (group_of (Some (close_frame (acc, lits Epsilon a))) (b # bs)) outer rest"
    using 3(1) [OF rest] .
  finally show ?case by simp
qed

lemma rx_match_Cat: "rx_match (Cat a b) s i j \<longleftrightarrow> (\<exists>k. i \<le> k \<and> k \<le> j \<and> rx_match a s i k \<and> rx_match b s k j)"
  by (auto simp: list_ex_iff)

declare rx_match.simps(6) [simp del]

lemma rx_match_le: "rx_match r s i j \<Longrightarrow> i \<le> j"
proof (induction r arbitrary: i j)
  case (Cat a b)
  from Cat.prems obtain k where "i \<le> k" "k \<le> j" by (auto simp: rx_match_Cat)
  then show ?case by simp
qed auto

lemma prefix_drop_snoc:
  "prefix (p @ [c]) (drop k s) \<longleftrightarrow> prefix p (drop k s) \<and> k + length p < length s \<and> s ! (k + length p) = c"
proof
  assume "prefix (p @ [c]) (drop k s)"
  then obtain t where t: "drop k s = p @ c # t" by (auto simp: prefix_def)
  then have "length (drop k s) = length p + Suc (length t)" by simp
  then have len: "k + length p < length s" by simp
  from t have "drop k s ! length p = c" by simp
  with len have "s ! (k + length p) = c" by simp
  with t len show "prefix p (drop k s) \<and> k + length p < length s \<and> s ! (k + length p) = c"
    by (simp add: prefix_def)
next
  assume a: "prefix p (drop k s) \<and> k + length p < length s \<and> s ! (k + length p) = c"
  then obtain t where t: "drop k s = p @ t" by (auto simp: prefix_def)
  from a have "length p < length s - k" by linarith
  then have "length p < length (drop k s)" by simp
  with t have "t \<noteq> []" by auto
  then obtain x t' where xt: "t = x # t'" by (cases t) auto
  from t xt have "drop k s ! length p = x" by simp
  with a have "x = c" by simp
  with t xt show "prefix (p @ [c]) (drop k s)" by (simp add: prefix_def)
qed

lemma rx_match_lits:
  "rx_match (lits r p) s i j \<longleftrightarrow> (\<exists>k. rx_match r s i k \<and> j = k + length p \<and> prefix p (drop k s))"
proof (induction p arbitrary: j rule: rev_induct)
  case Nil
  then show ?case by (simp add: lits_Nil)
next
  case (snoc c p)
  have "rx_match (lits r (p @ [c])) s i j \<longleftrightarrow>
        (\<exists>m. rx_match (lits r p) s i m \<and> m < length s \<and> s ! m = c \<and> j = Suc m)"
    by (auto simp: lits_snoc rx_match_Cat dest: rx_match_le)
  also have "\<dots> \<longleftrightarrow> (\<exists>k. rx_match r s i k \<and> j = k + length (p @ [c]) \<and> prefix (p @ [c]) (drop k s))"
    by (auto simp: snoc.IH prefix_drop_snoc)
  finally show ?case .
qed


lemma rx_match_start: "rx_match (Cat Epsilon Bol) s i j \<longleftrightarrow> i = 0 \<and> j = 0"
  by (auto simp: rx_match_Cat)

lemma rx_match_end: "rx_match (Cat r Eol) s i j \<longleftrightarrow> rx_match r s i j \<and> j = length s"
  by (auto simp: rx_match_Cat dest: rx_match_le)

lemma rx_match_then_char:
  "rx_match (Cat r (Chr c)) s i j \<longleftrightarrow> (\<exists>k. rx_match r s i k \<and> k < length s \<and> s ! k = c \<and> j = Suc k)"
  by (auto simp: rx_match_Cat dest: rx_match_le)

lemma rx_match_plain: "rx_match (lits Epsilon p) s i j \<longleftrightarrow> j = i + length p \<and> prefix p (drop i s)"
  by (auto simp: rx_match_lits)

lemma rx_match_group:
  "rx_match (close_frame (group_of acc apps)) s i j \<longleftrightarrow>
     (\<exists>r. acc = Some r \<and> rx_match r s i j) \<or>
     (if apps = [] then j = i else \<exists>a\<in>set apps. j = i + length a \<and> prefix a (drop i s))"
proof (induction acc apps rule: group_of.induct)
  case (1 acc)
  then show ?case by (cases acc) (auto simp: close_frame_def)
next
  case (2 acc a)
  then show ?case by (cases acc) (auto simp: close_frame_def rx_match_plain)
next
  case (3 acc a b bs)
  have "rx_match (close_frame (acc, lits Epsilon a)) s i j \<longleftrightarrow>
      (\<exists>r. acc = Some r \<and> rx_match r s i j) \<or> j = i + length a \<and> prefix a (drop i s)"
    by (cases acc) (auto simp: close_frame_def rx_match_plain)
  with 3 show ?case by auto
qed

lemma list_ex_positions:
  "list_ex (\<lambda>i. list_ex (\<lambda>j. P i j) [i..<Suc n]) [0..<Suc n] \<longleftrightarrow> (\<exists>i j. i \<le> j \<and> j \<le> n \<and> P i j)"
  by (simp only: list_ex_iff set_upt atLeastLessThan_iff Bex_def less_Suc_eq_le le0 simp_thms)
     (meson order_trans)

lemma regex_test_parsed:
  assumes "regex_parse (None, Epsilon) [] pattern = Inr r"
  shows "regex_test engine pattern s = Inr (\<exists>i j. i \<le> j \<and> j \<le> length s \<and> rx_match r s i j)"
  by (simp only: regex_test_def rx_search_def assms list_ex_positions sum.case)

lemma literal_test_parsed:
  assumes "regex_parse (None, Epsilon) [] pattern = Inr r"
  shows "literal_test pattern s \<longleftrightarrow> (\<exists>i j. i \<le> j \<and> j \<le> length s \<and> rx_match r s i j)"
  by (simp only: literal_test_def rx_search_def assms list_ex_positions sum.case)

lemma sublist_positions:
  "sublist p s \<longleftrightarrow> (\<exists>i. i + length p \<le> length s \<and> prefix p (drop i s))"
proof
  assume "sublist p s"
  then obtain ps ss where "s = ps @ p @ ss" by (auto simp: sublist_def)
  then have "length ps + length p \<le> length s \<and> prefix p (drop (length ps) s)" by simp
  then show "\<exists>i. i + length p \<le> length s \<and> prefix p (drop i s)" by blast
next
  assume "\<exists>i. i + length p \<le> length s \<and> prefix p (drop i s)"
  then obtain i t where "drop i s = p @ t" by (auto simp: prefix_def)
  then have "s = take i s @ p @ t" by (metis append_take_drop_id)
  then show "sublist p s" by (auto simp: sublist_def)
qed

lemma suffix_positions:
  "suffix p s \<longleftrightarrow> (\<exists>i. i + length p = length s \<and> prefix p (drop i s))"
proof
  assume "suffix p s"
  then obtain ps where "s = ps @ p" by (auto simp: suffix_def)
  then have "length ps + length p = length s \<and> prefix p (drop (length ps) s)" by simp
  then show "\<exists>i. i + length p = length s \<and> prefix p (drop i s)" by blast
next
  assume "\<exists>i. i + length p = length s \<and> prefix p (drop i s)"
  then obtain i t where i: "i + length p = length s" and t: "drop i s = p @ t"
    by (auto simp: prefix_def)
  from i have "length (drop i s) = length p" by simp
  with t have "t = []" by simp
  with t have "s = take i s @ p" by (metis append_Nil2 append_take_drop_id)
  then show "suffix p s" by (auto simp: suffix_def)
qed

lemma rx_match_anchored:
  "rx_match (lits (Cat Epsilon Bol) p) s i j \<longleftrightarrow> i = 0 \<and> j = length p \<and> prefix p s"
  by (auto simp: rx_match_lits rx_match_start)

lemma test_whole:
  assumes "regex_parse (None, Epsilon) [] pattern = Inr (Cat (lits (Cat Epsilon Bol) p) Eol)"
  shows "regex_test engine pattern s = Inr (s = p)"
    and "literal_test pattern s \<longleftrightarrow> s = p"
proof -
  have "(\<exists>i j. i \<le> j \<and> j \<le> length s \<and> rx_match (Cat (lits (Cat Epsilon Bol) p) Eol) s i j) \<longleftrightarrow>
        (length p = length s \<and> prefix p s)"
    by (auto simp: rx_match_end rx_match_anchored)
  also have "\<dots> \<longleftrightarrow> s = p"
    by (auto simp: prefix_def)
  finally show "regex_test engine pattern s = Inr (s = p)" and "literal_test pattern s \<longleftrightarrow> s = p"
    by (simp_all add: regex_test_parsed [OF assms] literal_test_parsed [OF assms])
qed

lemma test_prefix:
  assumes "regex_parse (None, Epsilon) [] pattern = Inr (lits (Cat Epsilon Bol) p)"
  shows "regex_test engine pattern s = Inr (prefix p s)"
    and "literal_test pattern s \<longleftrightarrow> prefix p s"
proof -
  have "(\<exists>i j. i \<le> j \<and> j \<le> length s \<and> rx_match (lits (Cat Epsilon Bol) p) s i j) \<longleftrightarrow> prefix p s"
    by (auto simp: rx_match_anchored dest: prefix_length_le)
  then show "regex_test engine pattern s = Inr (prefix p s)" and "literal_test pattern s \<longleftrightarrow> prefix p s"
    by (simp_all add: regex_test_parsed [OF assms] literal_test_parsed [OF assms])
qed

lemma test_suffix:
  assumes "regex_parse (None, Epsilon) [] pattern = Inr (Cat (lits Epsilon p) Eol)"
  shows "regex_test engine pattern s = Inr (suffix p s)"
    and "literal_test pattern s \<longleftrightarrow> suffix p s"
proof -
  have "(\<exists>i j. i \<le> j \<and> j \<le> length s \<and> rx_match (Cat (lits Epsilon p) Eol) s i j) \<longleftrightarrow>
        (\<exists>i. i + length p = length s \<and> prefix p (drop i s))"
    by (simp add: rx_match_end rx_match_plain) (metis le_add1 order_refl)
  then show "regex_test engine pattern s = Inr (suffix p s)" and "literal_test pattern s \<longleftrightarrow> suffix p s"
    by (simp_all add: regex_test_parsed [OF assms] literal_test_parsed [OF assms] suffix_positions)
qed


lemma rx_match_start_then:
  "rx_match (Cat (Cat Epsilon Bol) r) s i j \<longleftrightarrow> i = 0 \<and> rx_match r s 0 j"
  by (auto simp: rx_match_Cat [of "Cat Epsilon Bol"] rx_match_start dest: rx_match_le)

lemma rx_match_group_start:
  "rx_match (close_frame (group_of None apps)) s 0 j \<longleftrightarrow>
     (if apps = [] then j = 0 else \<exists>a\<in>set apps. j = length a \<and> prefix a s)"
  by (simp add: rx_match_group)

lemma prefix_snoc_start:
  "prefix (p @ [c]) s \<longleftrightarrow> prefix p s \<and> length p < length s \<and> s ! length p = c"
  using prefix_drop_snoc [of p c 0 s] by simp

lemma test_group_then_char:
  assumes "regex_parse (None, Epsilon) [] pattern =
             Inr (Cat (Cat (Cat Epsilon Bol) (close_frame (group_of None apps))) (Chr c))"
  shows "regex_test engine pattern s = Inr (apps = [] \<and> prefix [c] s \<or> (\<exists>a\<in>set apps. prefix (a @ [c]) s))"
    and "literal_test pattern s \<longleftrightarrow> apps = [] \<and> prefix [c] s \<or> (\<exists>a\<in>set apps. prefix (a @ [c]) s)"
proof -
  let ?r = "Cat (Cat (Cat Epsilon Bol) (close_frame (group_of None apps))) (Chr c)"
  have "(\<exists>i j. i \<le> j \<and> j \<le> length s \<and> rx_match ?r s i j) \<longleftrightarrow>
        (\<exists>k. rx_match (close_frame (group_of None apps)) s 0 k \<and> k < length s \<and> s ! k = c)"
    (is "?L \<longleftrightarrow> ?R")
  proof
    assume ?L
    then show ?R by (auto simp: rx_match_then_char rx_match_start_then)
  next
    assume ?R
    then obtain k where "rx_match (close_frame (group_of None apps)) s 0 k" "k < length s" "s ! k = c"
      by blast
    then have "0 \<le> Suc k \<and> Suc k \<le> length s \<and> rx_match ?r s 0 (Suc k)"
      by (auto simp: rx_match_then_char rx_match_start_then)
    then show ?L by blast
  qed
  also have "\<dots> \<longleftrightarrow> (apps = [] \<and> prefix [c] s \<or> (\<exists>a\<in>set apps. prefix (a @ [c]) s))"
    using prefix_snoc_start [of "[]" c s]
    by (auto simp: rx_match_group_start prefix_snoc_start)
  finally show "regex_test engine pattern s =
      Inr (apps = [] \<and> prefix [c] s \<or> (\<exists>a\<in>set apps. prefix (a @ [c]) s))"
    and "literal_test pattern s \<longleftrightarrow> apps = [] \<and> prefix [c] s \<or> (\<exists>a\<in>set apps. prefix (a @ [c]) s)"
    by (simp_all add: regex_test_parsed [OF assms] literal_test_parsed [OF assms])
qed

lemma test_group_whole:
  assumes "regex_parse (None, Epsilon) [] pattern =
             Inr (Cat (Cat (Cat Epsilon Bol) (close_frame (group_of None apps))) Eol)"
  shows "regex_test engine pattern s = Inr (apps = [] \<and> s = [] \<or> s \<in> set apps)"
    and "literal_test pattern s \<longleftrightarrow> apps = [] \<and> s = [] \<or> s \<in> set apps"
proof -
  let ?r = "Cat (Cat (Cat Epsilon Bol) (close_frame (group_of None apps))) Eol"
  have "(\<exists>i j. i \<le> j \<and> j \<le> length s \<and> rx_match ?r s i j) \<longleftrightarrow>
        rx_match (close_frame (group_of None apps)) s 0 (length s)"
    by (auto simp: rx_match_end rx_match_start_then)
  also have "\<dots> \<longleftrightarrow> (apps = [] \<and> s = [] \<or> (\<exists>a\<in>set apps. length s = length a \<and> prefix a s))"
    by (auto simp: rx_match_group_start)
  also have "\<dots> \<longleftrightarrow> (apps = [] \<and> s = [] \<or> s \<in> set apps)"
    by (auto simp: prefix_def)
  finally show "regex_test engine pattern s = Inr (apps = [] \<and> s = [] \<or> s \<in> set apps)"
    and "literal_test pattern s \<longleftrightarrow> apps = [] \<and> s = [] \<or> s \<in> set apps"
    by (simp_all add: regex_test_parsed [OF assms] literal_test_parsed [OF assms])
qed

lemma parse_group_pattern:
  assumes "\<forall>a\<in>set apps. plain a"
  shows "regex_parse (None, Epsilon) [] (''^('' @ join ''|'' apps @ '')-'') =
           Inr (Cat (Cat (Cat Epsilon Bol) (close_frame (group_of None apps))) (Chr CHR ''-''))"
    and "regex_parse (None, Epsilon) [] (''^('' @ join ''|'' apps @ '')$'') =
           Inr (Cat (Cat (Cat Epsilon Bol) (close_frame (group_of None apps))) Eol)"
  using parse_join [OF assms, of None "[(None, Cat Epsilon Bol)]" "'')-''"]
    parse_join [OF assms, of None "[(None, Cat Epsilon Bol)]" "'')$''"]
  by (simp_all add: add_atom_def close_frame_def)

lemma test_apps:
  "\<forall>a\<in>set apps. plain a \<Longrightarrow>
   regex_test engine (''^('' @ join ''|'' apps @ '')-'') s =
     Inr (apps = [] \<and> prefix ''-'' s \<or> (\<exists>a\<in>set apps. prefix (a @ ''-'') s))"
  by (rule test_group_then_char(1)) (rule parse_group_pattern)

lemma parse_environment_pattern:
  assumes "plain env"
  shows "regex_parse (None, Epsilon) [] (''-'' @ env @ ''-|-'' @ env @ ''$'') =
           Inr (Alt (lits Epsilon (''-'' @ env @ ''-'')) (Cat (lits Epsilon (''-'' @ env)) Eol))"
proof -
  from assms have p1: "plain (''-'' @ env @ ''-'')" and p2: "plain (''-'' @ env)"
    by (simp_all add: plain_def)
  have "regex_parse (None, Epsilon) [] (''-'' @ env @ ''-|-'' @ env @ ''$'')
        = regex_parse (None, Epsilon) [] ((''-'' @ env @ ''-'') @ (CHR ''|'' # (''-'' @ env) @ ''$''))"
    by simp
  also have "\<dots> = regex_parse (None, lits Epsilon (''-'' @ env @ ''-'')) [] (CHR ''|'' # (''-'' @ env) @ ''$'')"
    using parse_plain [OF p1, of "(None, Epsilon)"] by simp
  also have "\<dots> = regex_parse (Some (lits Epsilon (''-'' @ env @ ''-'')), Epsilon) [] ((''-'' @ env) @ ''$'')"
    by (simp add: close_frame_def)
  also have "\<dots> = regex_parse (Some (lits Epsilon (''-'' @ env @ ''-'')), lits Epsilon (''-'' @ env)) [] ''$''"
    using parse_plain [OF p2, of "(Some (lits Epsilon (''-'' @ env @ ''-'')), Epsilon)"] by simp
  also have "\<dots> = Inr (Alt (lits Epsilon (''-'' @ env @ ''-'')) (Cat (lits Epsilon (''-'' @ env)) Eol))"
    by (simp add: add_atom_def close_frame_def)
  finally show ?thesis .
qed

lemma positions_le:
  "(\<exists>i j. i \<le> j \<and> j \<le> n \<and> j = i + l \<and> Q i) \<longleftrightarrow> (\<exists>i. i + l \<le> (n::nat) \<and> Q i)"
  by auto

lemma positions_eq:
  "(\<exists>i j. i \<le> j \<and> j \<le> n \<and> (j = i + l \<and> Q i) \<and> j = n) \<longleftrightarrow> (\<exists>i. i + l = (n::nat) \<and> Q i)"
  by auto

lemma test_inside_or_suffix:
  assumes "regex_parse (None, Epsilon) [] pattern =
             Inr (Alt (lits Epsilon a) (Cat (lits Epsilon b) Eol))"
  shows "regex_test engine pattern s = Inr (sublist a s \<or> suffix b s)"
proof -
  have "(\<exists>i j. i \<le> j \<and> j \<le> length s \<and> rx_match (Alt (lits Epsilon a) (Cat (lits Epsilon b) Eol)) s i j)
        \<longleftrightarrow> (\<exists>i j. i \<le> j \<and> j \<le> length s \<and> j = i + length a \<and> prefix a (drop i s)) \<or>
            (\<exists>i j. i \<le> j \<and> j \<le> length s \<and> (j = i + length b \<and> prefix b (drop i s)) \<and> j = length s)"
    by (simp only: rx_match.simps(7) rx_match_end rx_match_plain) blast
  also have "\<dots> \<longleftrightarrow> (\<exists>i. i + length a \<le> length s \<and> prefix a (drop i s)) \<or>
            (\<exists>i. i + length b = length s \<and> prefix b (drop i s))"
    by (simp only: positions_le positions_eq)
  finally show ?thesis
    by (simp only: regex_test_parsed [OF assms] sublist_positions suffix_positions)
qed

lemma test_environment:
  "plain env \<Longrightarrow>
   regex_test engine (''-'' @ env @ ''-|-'' @ env @ ''$'') s =
     Inr (sublist (''-'' @ env @ ''-'') s \<or> suffix (''-'' @ env) s)"
  by (rule test_inside_or_suffix) (rule parse_environment_pattern)

lemma literal_tests:
  "literal_test ''^CDKToolkit$'' s \<longleftrightarrow> s = ''CDKToolkit''"
  "literal_test ''^internal-'' s \<longleftrightarrow> prefix ''internal-'' s"
  "literal_test ''^(balsamiq-slack)$'' s \<longleftrightarrow> s = ''balsamiq-slack''"
  "literal_test ''^(workflow-triggerer|autosavedreactionsforslack|acetaia|bottega)-'' s \<longleftrightarrow>
     (\<exists>a\<in>set [''workflow-triggerer'', ''autosavedreactionsforslack'', ''acetaia'', ''bottega''].
        prefix (a @ ''-'') s)"
  "literal_test ''-mysql$'' s \<longleftrightarrow> suffix ''-mysql'' s"
  "literal_test ''-redis$'' s \<longleftrightarrow> suffix ''-redis'' s"
proof -
  have "regex_parse (None, Epsilon) [] ''^CDKToolkit$'' = Inr (Cat (lits (Cat Epsilon Bol) ''CDKToolkit'') Eol)"
    by (simp add: lits_def add_atom_def close_frame_def)
  from test_whole(2) [OF this] show "literal_test ''^CDKToolkit$'' s \<longleftrightarrow> s = ''CDKToolkit''" .
  have "regex_parse (None, Epsilon) [] ''^internal-'' = Inr (lits (Cat Epsilon Bol) ''internal-'')"
    by (simp add: lits_def add_atom_def close_frame_def)
  from test_prefix(2) [OF this] show "literal_test ''^internal-'' s \<longleftrightarrow> prefix ''internal-'' s" .
  have "\<forall>a\<in>set [''balsamiq-slack'']. plain a" by (simp add: plain_def)
  from test_group_whole(2) [OF parse_group_pattern(2) [OF this], of s]
  show "literal_test ''^(balsamiq-slack)$'' s \<longleftrightarrow> s = ''balsamiq-slack''"
    by simp
  have "\<forall>a\<in>set [''workflow-triggerer'', ''autosavedreactionsforslack'', ''acetaia'', ''bottega'']. plain a"
    by (simp add: plain_def)
  from test_group_then_char(2) [OF parse_group_pattern(1) [OF this], of s]
  show "literal_test ''^(workflow-triggerer|autosavedreactionsforslack|acetaia|bottega)-'' s \<longleftrightarrow>
     (\<exists>a\<in>set [''workflow-triggerer'', ''autosavedreactionsforslack'', ''acetaia'', ''bottega''].
        prefix (a @ ''-'') s)"
    by simp
  have "regex_parse (None, Epsilon) [] ''-mysql$'' = Inr (Cat (lits Epsilon ''-mysql'') Eol)"
    by (simp add: lits_def add_atom_def close_frame_def)
  from test_suffix(2) [OF this] show "literal_test ''-mysql$'' s \<longleftrightarrow> suffix ''-mysql'' s" .
  have "regex_parse (None, Epsilon) [] ''-redis$'' = Inr (Cat (lits Epsilon ''-redis'') Eol)"
    by (simp add: lits_def add_atom_def close_frame_def)
  from test_suffix(2) [OF this] show "literal_test ''-redis$'' s \<longleftrightarrow> suffix ''-redis'' s" .
qed

lemma isInterestingStack_plain:
  assumes "StackName stack = Some name" and "name \<noteq> []" and "plain environment"
    and "\<forall>as. apps = Some as \<longrightarrow> (\<forall>a\<in>set as. plain a)"
  shows "isInterestingStack engine stack environment apps includes =
     Inr ((sublist (''-'' @ environment @ ''-'') name \<or> suffix (''-'' @ environment) name) \<and>
          name \<noteq> ''CDKToolkit'' \<and>
          ParentId stack = None \<and>
          \<not> prefix ''internal-'' name \<and>
          name \<noteq> ''balsamiq-slack'' \<and>
          \<not> (\<exists>a\<in>set [''workflow-triggerer'', ''autosavedreactionsforslack'', ''acetaia'', ''bottega''].
                prefix (a @ ''-'') name) \<and>
          (suffix ''-mysql'' name \<longrightarrow> (\<exists>chosen. includes = Some chosen \<and> Mysql \<in> set chosen)) \<and>
          (suffix ''-redis'' name \<longrightarrow> (\<exists>chosen. includes = Some chosen \<and> Redis \<in> set chosen)) \<and>
          (case apps of
             None \<Rightarrow> True
           | Some as \<Rightarrow> as = [] \<and> prefix ''-'' name \<or> (\<exists>a\<in>set as. prefix (a @ ''-'') name)))"
proof -
  from assms(1,2) have name: "truthy (StackName stack)" "template (StackName stack) = name"
    by (simp_all add: truthy_def template_def)
  note env = test_environment [OF assms(3), of engine name]
  show ?thesis
  proof (cases apps)
    case None
    then show ?thesis
      unfolding isInterestingStack_def Let_def name env literal_tests
      by (cases "includes") (auto simp: name(1) split: bool.splits)
  next
    case (Some as)
    with assms(4) have "\<forall>a\<in>set as. plain a" by simp
    note tapps = test_apps [OF this, of engine name]
    show ?thesis
      unfolding Some isInterestingStack_def Let_def name env literal_tests option.case tapps
      by (cases "includes") (auto simp: name(1) split: bool.splits)
  qed
qed

section \<open>The filter\<close>

text \<open>
  Claim C5, as amended. Let the stack have a (non-empty) \<open>StackName\<close>, let the
  environment be plain text, and let every app, when apps are supplied, be plain text
  (no character with a meaning in a regular expression). Then \<open>isInterestingStack\<close>
  returns, and returns true if and only if: the name contains \<open>-environment-\<close> or ends
  with \<open>-environment\<close>; the stack is not \<open>CDKToolkit\<close>, has no \<open>ParentId\<close>, does not
  start with \<open>internal-\<close>, is not \<open>balsamiq-slack\<close> and does not start with one of the
  excluded app prefixes; the name does not end in \<open>-mysql\<close> or \<open>-redis\<close> unless that
  kind is listed in the includes; and, when apps are supplied, the name starts with
  \<open>app-\<close> for one of them (when the list supplied is empty: starts with \<open>-\<close>).
  For an environment or an app that is not plain, the name is matched against the
  regular expression that their text spells.
\<close>

theorem isInterestingStack_iff:
  assumes "StackName stack = Some name" and "name \<noteq> []" and "plain environment"
    and "\<forall>as. apps = Some as \<longrightarrow> (\<forall>a\<in>set as. plain a)"
  shows "isInterestingStack engine stack environment apps includes =
     Inr ((sublist (''-'' @ environment @ ''-'') name \<or> suffix (''-'' @ environment) name) \<and>
          name \<noteq> ''CDKToolkit'' \<and>
          ParentId stack = None \<and>
          \<not> prefix ''internal-'' name \<and>
          name \<noteq> ''balsamiq-slack'' \<and>
          \<not> (\<exists>a\<in>set [''workflow-triggerer'', ''autosavedreactionsforslack'', ''acetaia'', ''bottega''].
                prefix (a @ ''-'') name) \<and>
          (suffix ''-mysql'' name \<longrightarrow> (\<exists>chosen. includes = Some chosen \<and> Mysql \<in> set chosen)) \<and>
          (suffix ''-redis'' name \<longrightarrow> (\<exists>chosen. includes = Some chosen \<and> Redis \<in> set chosen)) \<and>
          (case apps of
             None \<Rightarrow> True
           | Some as \<Rightarrow> as = [] \<and> prefix ''-'' name \<or> (\<exists>a\<in>set as. prefix (a @ ''-'') name)))"
  using assms by (rule isInterestingStack_plain)

theorem isInterestingStack_iff_witness:
  "isInterestingStack strictEngine
     \<lparr>StackId = Some ''id-1'', StackName = Some ''bas-staging-web'', ParentId = None, Tags = None\<rparr>
     ''staging'' (Some [''rtc'', ''bas'']) None = Inr True \<and>
   isInterestingStack strictEngine
     \<lparr>StackId = Some ''id-2'', StackName = Some ''bas-staging-mysql'', ParentId = None, Tags = None\<rparr>
     ''staging'' None (Some [Redis]) = Inr False \<and>
   isInterestingStack strictEngine
     \<lparr>StackId = Some ''id-2'', StackName = Some ''bas-staging-mysql'', ParentId = None, Tags = None\<rparr>
     ''staging'' None (Some [Redis, Mysql]) = Inr True"
  using
    isInterestingStack_iff [of
      "\<lparr>StackId = Some ''id-1'', StackName = Some ''bas-staging-web'', ParentId = None, Tags = None\<rparr>"
      "''bas-staging-web''" "''staging''" "Some [''rtc'', ''bas'']" strictEngine None]
    isInterestingStack_iff [of
      "\<lparr>StackId = Some ''id-2'', StackName = Some ''bas-staging-mysql'', ParentId = None, Tags = None\<rparr>"
      "''bas-staging-mysql''" "''staging''" None strictEngine "Some [Redis]"]
    isInterestingStack_iff [of
      "\<lparr>StackId = Some ''id-2'', StackName = Some ''bas-staging-mysql'', ParentId = None, Tags = None\<rparr>"
      "''bas-staging-mysql''" "''staging''" None strictEngine "Some [Redis, Mysql]"]
  by (simp add: plain_def sublist_code suffix_to_prefix)

text \<open>
  The claim as stated fails for an environment that is not plain text: with the
  environment \<open>.\<close> the stack \<open>a-b\<close> is interesting, although its name neither
  contains \<open>-.-\<close> nor ends with \<open>-.\<close>.
\<close>

theorem isInterestingStack_iff_counterexample:
  "isInterestingStack strictEngine
     \<lparr>StackId = Some ''id-1'', StackName = Some ''a-b'', ParentId = None, Tags = None\<rparr>
     ''.'' None None = Inr True \<and>
   \<not> sublist ''-.-'' ''a-b'' \<and> \<not> suffix ''-.'' ''a-b''"
  by code_simp

section \<open>Output operations of the emission\<close>

lemma fst_andThen:
  "fst (andThen m f) = fst m @ (case snd m of Inl e \<Rightarrow> [] | Inr x \<Rightarrow> fst (f x))"
  by (simp add: andThen_def split: sum.splits)

lemma snd_andThen:
  "snd (andThen m f) = (case snd m of Inl e \<Rightarrow> Inl e | Inr x \<Rightarrow> snd (f x))"
  by (simp add: andThen_def split: sum.splits)

lemma andThen_completed:
  "snd (andThen m f) = Inr y \<longleftrightarrow> (\<exists>x. snd m = Inr x \<and> snd (f x) = Inr y)"
  by (simp add: andThen_def split: sum.splits)

lemma emit_simps:
  "fst skip = []" "snd skip = Inr ()"
  "fst (issue opn) = [opn]" "snd (issue opn) = Inr ()"
  "fst (outcome r) = []" "snd (outcome r) = r"
  by (simp_all add: skip_def issue_def outcome_def)

lemma forEach_ops_subset:
  "opn \<in> set (fst (forEach body xs)) \<Longrightarrow> \<exists>x\<in>set xs. opn \<in> set (fst (body x))"
  by (induction xs) (auto simp: fst_andThen emit_simps split: sum.splits)

lemma forEach_completed:
  "snd (forEach body xs) = Inr () \<longleftrightarrow> (\<forall>x\<in>set xs. snd (body x) = Inr ())"
  by (induction xs) (auto simp: andThen_completed emit_simps)

lemma forEach_ops_completed:
  "snd (forEach body xs) = Inr () \<Longrightarrow> fst (forEach body xs) = concat (map (\<lambda>x. fst (body x)) xs)"
  by (induction xs) (auto simp: fst_andThen andThen_completed emit_simps)

lemma filterInteresting_completed:
  "filterInteresting engine environment apps incl stacks = Inr kept \<Longrightarrow>
   (\<forall>s\<in>set stacks. \<exists>b. isInterestingStack engine s environment apps incl = Inr b) \<and>
   kept = filter (\<lambda>s. isInterestingStack engine s environment apps incl = Inr True) stacks"
  by (induction stacks arbitrary: kept) (auto split: sum.splits)


lemma writePlaceholders_ops:
  "opn \<in> set (fst (writePlaceholders regionConfig apps stack)) \<Longrightarrow>
   (multipleApps apps \<and> (\<exists>node. getNodeNameForApp stack regionConfig = Inr node \<and>
       opn = WriteFile APP_OUTPUT_DIR (node @ ''.js'') [])) \<or>
   (\<exists>node. getNodeNameForStack stack regionConfig = Inr node \<and>
       opn = WriteFile STACK_OUTPUT_DIR (node @ ''.js'') [])"
  by (auto simp: writePlaceholders_def fst_andThen emit_simps split: sum.splits if_splits)

lemma writePlaceholders_completed:
  assumes "snd (writePlaceholders regionConfig apps stack) = Inr ()"
  shows "\<exists>node. getNodeNameForStack stack regionConfig = Inr node \<and>
           WriteFile STACK_OUTPUT_DIR (node @ ''.js'') [] \<in> set (fst (writePlaceholders regionConfig apps stack))"
    and "multipleApps apps \<Longrightarrow>
         \<exists>node. getNodeNameForApp stack regionConfig = Inr node \<and>
           WriteFile APP_OUTPUT_DIR (node @ ''.js'') [] \<in> set (fst (writePlaceholders regionConfig apps stack))"
  using assms
  by (auto simp: writePlaceholders_def fst_andThen snd_andThen emit_simps split: sum.splits if_splits)

lemma andThen_outcome:
  "andThen (outcome (Inr x)) f = f x"
  "andThen (outcome (Inl e)) f = outcome (Inl e)"
  by (simp_all add: andThen_def outcome_def)

lemma appendForImport_unfold:
  assumes "map_get stacks iimport = Some importingStack"
    and "isInterestingStack engine importingStack environment apps incl = Inr True"
  shows "appendForImport engine regionConfig environment apps incl stacks eexport exportingStack iimport =
     andThen
       (if multipleApps apps
        then andThen (outcome (getNodeNameForApp exportingStack regionConfig))
               (\<lambda>exportingNode.
                  andThen (outcome (getNodeNameForApp importingStack regionConfig))
                    (\<lambda>importingNode.
                       if exportingNode \<noteq> importingNode
                       then issue (AppendFile APP_OUTPUT_DIR (importingNode @ ''.js'')
                                     (requireLine exportingNode eexport))
                       else skip))
        else skip)
       (\<lambda>_. andThen (outcome (getNodeNameForStack exportingStack regionConfig))
               (\<lambda>exportingNode.
                  andThen (outcome (getNodeNameForStack importingStack regionConfig))
                    (\<lambda>importingNode.
                       if exportingNode \<noteq> importingNode
                       then issue (AppendFile STACK_OUTPUT_DIR (importingNode @ ''.js'')
                                     (requireLine exportingNode eexport))
                       else skip)))"
  using assms by (simp add: appendForImport_def andThen_outcome)

lemma appendForImport_not_interesting:
  assumes "map_get stacks iimport = Some importingStack"
    and "isInterestingStack engine importingStack environment apps incl \<noteq> Inr True"
  shows "fst (appendForImport engine regionConfig environment apps incl stacks eexport exportingStack iimport) = []"
proof (cases "isInterestingStack engine importingStack environment apps incl")
  case (Inl e)
  with assms(1) show ?thesis
    by (simp add: appendForImport_def andThen_outcome emit_simps)
next
  case (Inr keep)
  with assms have "\<not> keep" by simp
  with Inr assms(1) show ?thesis
    by (simp add: appendForImport_def andThen_outcome emit_simps)
qed

lemma appendForImport_resolved:
  assumes "opn \<in> set (fst (appendForImport engine regionConfig environment apps incl stacks eexport exportingStack iimport))"
  shows "\<exists>importingStack. map_get stacks iimport = Some importingStack \<and>
           isInterestingStack engine importingStack environment apps incl = Inr True"
proof (cases "map_get stacks iimport")
  case None
  with assms show ?thesis by (simp add: appendForImport_def emit_simps)
next
  case (Some importingStack)
  with assms appendForImport_not_interesting [OF Some] show ?thesis by fastforce
qed

lemma appendForImport_ops:
  assumes "opn \<in> set (fst (appendForImport engine regionConfig environment apps incl stacks eexport exportingStack iimport))"
  shows "\<exists>importingStack. map_get stacks iimport = Some importingStack \<and>
           isInterestingStack engine importingStack environment apps incl = Inr True \<and>
           (multipleApps apps \<and>
            (\<exists>exportingNode importingNode.
               getNodeNameForApp exportingStack regionConfig = Inr exportingNode \<and>
               getNodeNameForApp importingStack regionConfig = Inr importingNode \<and>
               exportingNode \<noteq> importingNode \<and>
               opn = AppendFile APP_OUTPUT_DIR (importingNode @ ''.js'') (requireLine exportingNode eexport))
            \<or>
            (\<exists>exportingNode importingNode.
               getNodeNameForStack exportingStack regionConfig = Inr exportingNode \<and>
               getNodeNameForStack importingStack regionConfig = Inr importingNode \<and>
               exportingNode \<noteq> importingNode \<and>
               opn = AppendFile STACK_OUTPUT_DIR (importingNode @ ''.js'') (requireLine exportingNode eexport)))"
proof -
  from appendForImport_resolved [OF assms] obtain importingStack where
    res: "map_get stacks iimport = Some importingStack"
    and int: "isInterestingStack engine importingStack environment apps incl = Inr True" by blast
  note unfold = appendForImport_unfold [OF res int]
  have "multipleApps apps \<and>
            (\<exists>exportingNode importingNode.
               getNodeNameForApp exportingStack regionConfig = Inr exportingNode \<and>
               getNodeNameForApp importingStack regionConfig = Inr importingNode \<and>
               exportingNode \<noteq> importingNode \<and>
               opn = AppendFile APP_OUTPUT_DIR (importingNode @ ''.js'') (requireLine exportingNode eexport))
            \<or>
            (\<exists>exportingNode importingNode.
               getNodeNameForStack exportingStack regionConfig = Inr exportingNode \<and>
               getNodeNameForStack importingStack regionConfig = Inr importingNode \<and>
               exportingNode \<noteq> importingNode \<and>
               opn = AppendFile STACK_OUTPUT_DIR (importingNode @ ''.js'') (requireLine exportingNode eexport))"
    using assms unfolding unfold
    by (cases "getNodeNameForApp exportingStack regionConfig";
        cases "getNodeNameForApp importingStack regionConfig";
        cases "getNodeNameForStack exportingStack regionConfig";
        cases "getNodeNameForStack importingStack regionConfig")
       (auto simp: andThen_outcome fst_andThen emit_simps split: if_splits)
  with res int show ?thesis by blast
qed


lemma appendForImport_same_app:
  assumes "getNodeNameForApp exportingStack regionConfig = getNodeNameForApp importingStack regionConfig"
    and "map_get stacks iimport = Some importingStack"
  shows "AppendFile APP_OUTPUT_DIR file line
           \<notin> set (fst (appendForImport engine regionConfig environment apps incl stacks eexport exportingStack iimport))"
proof
  assume "AppendFile APP_OUTPUT_DIR file line
           \<in> set (fst (appendForImport engine regionConfig environment apps incl stacks eexport exportingStack iimport))"
  from appendForImport_ops [OF this] assms show False
    by (auto simp: APP_OUTPUT_DIR_def STACK_OUTPUT_DIR_def)
qed

lemma appendForExport_ops:
  assumes "opn \<in> set (fst (appendForExport engine regionConfig environment apps incl stacks (eexport, imports)))"
  shows "\<exists>exportingStack.
           map_get stacks (template (ExportingStackId eexport)) = Some exportingStack \<and>
           isInterestingStack engine exportingStack environment apps incl = Inr True \<and>
           (\<exists>iimport\<in>set imports.
              opn \<in> set (fst (appendForImport engine regionConfig environment apps incl stacks eexport
                                 exportingStack iimport)))"
  using assms
  by (auto simp: appendForExport_def Let_def fst_andThen emit_simps
        dest!: forEach_ops_subset split: option.splits sum.splits if_splits)


lemma emitGraph_completed:
  assumes "snd (emitGraph engine regionConfig environment apps incl stacks entries) = Inr ()"
  shows "\<exists>kept. filterInteresting engine environment apps incl (map_values stacks) = Inr kept \<and>
           snd (forEach (writePlaceholders regionConfig apps) kept) = Inr () \<and>
           snd (forEach (appendForExport engine regionConfig environment apps incl stacks) entries) = Inr () \<and>
           fst (emitGraph engine regionConfig environment apps incl stacks entries) =
             fst (forEach (writePlaceholders regionConfig apps) kept) @
             fst (forEach (appendForExport engine regionConfig environment apps incl stacks) entries)"
proof (cases "filterInteresting engine environment apps incl (map_values stacks)")
  case (Inl e)
  with assms show ?thesis by (simp add: emitGraph_def andThen_outcome emit_simps)
next
  case (Inr kept)
  with assms show ?thesis
    by (cases "snd (forEach (writePlaceholders regionConfig apps) kept)")
       (simp_all add: emitGraph_def andThen_outcome fst_andThen snd_andThen)
qed

lemma emitGraph_ops:
  assumes "opn \<in> set (fst (emitGraph engine regionConfig environment apps incl stacks entries))"
  shows "(\<exists>stack\<in>set (map_values stacks).
            isInterestingStack engine stack environment apps incl = Inr True \<and>
            opn \<in> set (fst (writePlaceholders regionConfig apps stack))) \<or>
         (\<exists>entry\<in>set entries.
            opn \<in> set (fst (appendForExport engine regionConfig environment apps incl stacks entry)))"
proof (cases "filterInteresting engine environment apps incl (map_values stacks)")
  case (Inl e)
  with assms show ?thesis by (simp add: emitGraph_def andThen_outcome emit_simps)
next
  case (Inr kept)
  from filterInteresting_completed [OF Inr]
  have kept: "kept = filter (\<lambda>s. isInterestingStack engine s environment apps incl = Inr True) (map_values stacks)"
    by simp
  from assms Inr have "opn \<in> set (fst (forEach (writePlaceholders regionConfig apps) kept)) \<or>
      opn \<in> set (fst (forEach (appendForExport engine regionConfig environment apps incl stacks) entries))"
    by (auto simp: emitGraph_def andThen_outcome fst_andThen split: sum.splits)
  then show ?thesis
  proof
    assume "opn \<in> set (fst (forEach (writePlaceholders regionConfig apps) kept))"
    from forEach_ops_subset [OF this] kept show ?thesis by auto
  next
    assume "opn \<in> set (fst (forEach (appendForExport engine regionConfig environment apps incl stacks) entries))"
    from forEach_ops_subset [OF this] show ?thesis by auto
  qed
qed

lemma emitGraph_declaration_origin:
  assumes "AppendFile dir file line \<in> set (fst (emitGraph engine regionConfig environment apps incl stacks entries))"
  shows "\<exists>eexport imports iimport exportingStack.
           (eexport, imports) \<in> set entries \<and> iimport \<in> set imports \<and>
           map_get stacks (template (ExportingStackId eexport)) = Some exportingStack \<and>
           isInterestingStack engine exportingStack environment apps incl = Inr True \<and>
           AppendFile dir file line
             \<in> set (fst (appendForImport engine regionConfig environment apps incl stacks eexport
                           exportingStack iimport))"
proof -
  from emitGraph_ops [OF assms] writePlaceholders_ops
  obtain entry where entry: "entry \<in> set entries"
    and "AppendFile dir file line
           \<in> set (fst (appendForExport engine regionConfig environment apps incl stacks entry))"
    by fastforce
  with appendForExport_ops [of "AppendFile dir file line" engine regionConfig environment apps incl stacks
      "fst entry" "snd entry"]
  obtain exportingStack iimport where
    "map_get stacks (template (ExportingStackId (fst entry))) = Some exportingStack"
    "isInterestingStack engine exportingStack environment apps incl = Inr True"
    "iimport \<in> set (snd entry)"
    "AppendFile dir file line
       \<in> set (fst (appendForImport engine regionConfig environment apps incl stacks (fst entry)
                     exportingStack iimport))"
    by auto
  with entry show ?thesis
    by (intro exI [of _ "fst entry"] exI [of _ "snd entry"] exI [of _ iimport]
          exI [of _ exportingStack]) simp
qed



section \<open>The example account, evaluated\<close>

lemma example_plain: "plain ''staging''" "plain ''bas''" "plain ''rtc''"
  by (simp_all add: plain_def)

lemma example_interesting:
  "isInterestingStack engine basVpc ''staging'' None None = Inr True"
  "isInterestingStack engine basWeb ''staging'' None None = Inr True"
  "isInterestingStack engine rtcWeb ''staging'' None None = Inr True"
  "isInterestingStack engine basVpc ''staging'' (Some [''bas'']) None = Inr True"
  "isInterestingStack engine basWeb ''staging'' (Some [''bas'']) None = Inr True"
  "isInterestingStack engine rtcWeb ''staging'' (Some [''bas'']) None = Inr False"
  using isInterestingStack_plain [of basVpc "''bas-staging-vpc''" "''staging''" None engine None]
    isInterestingStack_plain [of basWeb "''bas-staging-web''" "''staging''" None engine None]
    isInterestingStack_plain [of rtcWeb "''rtc-staging-web''" "''staging''" None engine None]
    isInterestingStack_plain [of basVpc "''bas-staging-vpc''" "''staging''" "Some [''bas'']" engine None]
    isInterestingStack_plain [of basWeb "''bas-staging-web''" "''staging''" "Some [''bas'']" engine None]
    isInterestingStack_plain [of rtcWeb "''rtc-staging-web''" "''staging''" "Some [''bas'']" engine None]
  by (simp_all add: basVpc_def basWeb_def rtcWeb_def plain_def sublist_code suffix_to_prefix)

lemma example_nodes:
  "getNodeNameForApp basVpc euWest = Inr ''bas-staging''"
  "getNodeNameForApp basWeb euWest = Inr ''bas-staging''"
  "getNodeNameForApp rtcWeb euWest = Inr ''rtc-staging''"
  "getNodeNameForStack basVpc euWest = Inr ''bas-staging-vpc''"
  "getNodeNameForStack basWeb euWest = Inr ''bas-staging-web''"
  "getNodeNameForStack rtcWeb euWest = Inr ''rtc-staging-web''"
  by (simp_all add: getNodeNameForApp_def getNodeNameForStack_def getTagValue_def regionSuffix_def
        truthy_def template_def basVpc_def basWeb_def rtcWeb_def stagingTags_def euWest_def)

lemma example_lookup:
  "map_get exampleStacks ''id-1'' = Some basVpc"
  "map_get exampleStacks ''bas-staging-vpc'' = Some basVpc"
  "map_get exampleStacks ''bas-staging-web'' = Some basWeb"
  "map_get exampleStacks ''rtc-staging-web'' = Some rtcWeb"
  by (simp_all add: map_get_def exampleStacks_def)

lemma example_all_apps:
  "emitGraph engine euWest ''staging'' None None exampleStacks exampleExports = 
     ([WriteFile APP_OUTPUT_DIR ''bas-staging.js'' [], WriteFile STACK_OUTPUT_DIR ''bas-staging-vpc.js'' [],
       WriteFile APP_OUTPUT_DIR ''bas-staging.js'' [], WriteFile STACK_OUTPUT_DIR ''bas-staging-vpc.js'' [],
       WriteFile APP_OUTPUT_DIR ''bas-staging.js'' [], WriteFile STACK_OUTPUT_DIR ''bas-staging-web.js'' [],
       WriteFile APP_OUTPUT_DIR ''bas-staging.js'' [], WriteFile STACK_OUTPUT_DIR ''bas-staging-web.js'' [],
       WriteFile APP_OUTPUT_DIR ''rtc-staging.js'' [], WriteFile STACK_OUTPUT_DIR ''rtc-staging-web.js'' [],
       WriteFile APP_OUTPUT_DIR ''rtc-staging.js'' [], WriteFile STACK_OUTPUT_DIR ''rtc-staging-web.js'' [],
       AppendFile STACK_OUTPUT_DIR ''bas-staging-web.js'' (requireLine ''bas-staging-vpc'' vpcExport),
       AppendFile APP_OUTPUT_DIR ''rtc-staging.js'' (requireLine ''bas-staging'' vpcExport),
       AppendFile STACK_OUTPUT_DIR ''rtc-staging-web.js'' (requireLine ''bas-staging-vpc'' vpcExport)],
      Inr ())"
  by (simp add: emitGraph_def map_values_def exampleStacks_def exampleExports_def
        example_interesting example_nodes example_lookup [unfolded exampleStacks_def]
        writePlaceholders_def appendForExport_def appendForImport_def multipleApps_def
        andThen_def outcome_def issue_def skip_def vpcExport_def truthy_def template_def Let_def)

lemma example_single_app:
  "emitGraph engine euWest ''staging'' (Some [''bas'']) None exampleStacks exampleExports =
     ([WriteFile STACK_OUTPUT_DIR ''bas-staging-vpc.js'' [],
       WriteFile STACK_OUTPUT_DIR ''bas-staging-vpc.js'' [],
       WriteFile STACK_OUTPUT_DIR ''bas-staging-web.js'' [],
       WriteFile STACK_OUTPUT_DIR ''bas-staging-web.js'' [],
       AppendFile STACK_OUTPUT_DIR ''bas-staging-web.js'' (requireLine ''bas-staging-vpc'' vpcExport)],
      Inr ())"
  by (simp add: emitGraph_def map_values_def exampleStacks_def exampleExports_def
        example_interesting example_nodes example_lookup [unfolded exampleStacks_def]
        writePlaceholders_def appendForExport_def appendForImport_def multipleApps_def
        andThen_def outcome_def issue_def skip_def vpcExport_def truthy_def template_def Let_def)

section \<open>Output operations of the program\<close>

lemma emitsI:
  "(\<And>w r w'. m w = Some (r, w') \<Longrightarrow> \<exists>new. ops w' = ops w @ new \<and> list_all P new) \<Longrightarrow> emits P m"
  by (simp add: emits_def)

lemma emitsD:
  "emits P m \<Longrightarrow> m w = Some (r, w') \<Longrightarrow> \<exists>new. ops w' = ops w @ new \<and> list_all P new"
  by (simp add: emits_def)

lemma emits_silent:
  "(\<And>w r w'. m w = Some (r, w') \<Longrightarrow> ops w' = ops w) \<Longrightarrow> emits P m"
  by (rule emitsI) (rule exI [of _ "[]"], simp)

lemma emits_returns: "emits P (returns x)"
  by (rule emits_silent) (auto simp: returns_def)

lemma emits_throws: "emits P (throws e)"
  by (rule emits_silent) (auto simp: throws_def)

lemma emits_await:
  assumes "emits P m" and "\<And>x. emits P (f x)"
  shows "emits P (await m f)"
proof (rule emitsI)
  fix w r w' assume run: "await m f w = Some (r, w')"
  show "\<exists>new. ops w' = ops w @ new \<and> list_all P new"
  proof (cases "m w")
    case None
    with run show ?thesis by (simp add: await_def)
  next
    case (Some res)
    obtain r1 w1 where res: "res = (r1, w1)" by (cases res)
    from emitsD [OF assms(1)] Some res obtain new1 where
      new1: "ops w1 = ops w @ new1" "list_all P new1" by blast
    show ?thesis
    proof (cases r1)
      case (Inl e)
      with run Some res have "w' = w1" by (simp add: await_def)
      with new1 show ?thesis by blast
    next
      case (Inr x)
      with run Some res have "f x w1 = Some (r, w')" by (simp add: await_def)
      from emitsD [OF assms(2) this] obtain new2 where
        "ops w' = ops w1 @ new2" "list_all P new2" by blast
      with new1 have "ops w' = ops w @ (new1 @ new2) \<and> list_all P (new1 @ new2)" by simp
      then show ?thesis by blast
    qed
  qed
qed

lemma emits_perform: "list_all P (fst m) \<Longrightarrow> emits P (perform m)"
  by (rule emitsI) (auto simp: perform_def)

lemma loop_keeps_ops:
  assumes "consumeAllTokens_loop rgn cmd resultProp acc tok w = Some res"
  shows "ops (snd res) = ops w"
proof (rule consumeAllTokens_loop.raw_induct
    [where P = "\<lambda>rgn cmd resultProp acc tok w res. ops (snd res) = ops w", OF _ assms])
  fix loop :: "string option \<Rightarrow> command \<Rightarrow> (response \<Rightarrow> 'a list option) \<Rightarrow> 'a list \<Rightarrow> string option
     \<Rightarrow> world \<Rightarrow> ((error + 'a list) \<times> world) option"
  fix rgn cmd resultProp acc tok w res
  assume IH: "\<And>rgn cmd resultProp acc tok w res.
     loop rgn cmd resultProp acc tok w = Some res \<Longrightarrow> ops (snd res) = ops w"
  assume body: "(case send rgn cmd tok w of
        None \<Rightarrow> None
      | Some (Inl e, w') \<Rightarrow> Some (Inl e, w')
      | Some (Inr resp, w') \<Rightarrow>
          (let result' = (case resultProp resp of
                            None \<Rightarrow> acc
                          | Some partialResults \<Rightarrow> acc @ partialResults)
           in if truthy (NextToken resp)
              then loop rgn cmd resultProp result' (NextToken resp) w'
              else Some (Inr result', w'))) = Some res"
  let ?w = "w\<lparr>calls := calls w @ [(rgn, cmd, tok)]\<rparr>"
  show "ops (snd res) = ops w"
  proof (cases "service w rgn cmd tok")
    case (Inl e)
    with body show ?thesis by (auto simp: send_def)
  next
    case (Inr resp)
    show ?thesis
    proof (cases "truthy (NextToken resp)")
      case True
      with Inr body have "loop rgn cmd resultProp
          (case resultProp resp of None \<Rightarrow> acc | Some partialResults \<Rightarrow> acc @ partialResults)
          (NextToken resp) ?w = Some res"
        by (simp add: send_def Let_def)
      from IH [OF this] show ?thesis by simp
    next
      case False
      with Inr body show ?thesis by (auto simp: send_def Let_def)
    qed
  qed
qed

lemma emits_consumeAllTokens: "emits P (consumeAllTokens rgn cmd resultProp)"
  by (rule emits_silent) (auto simp: consumeAllTokens_def dest: loop_keeps_ops)

lemma emits_listImports: "emits P (listImports rgn exportName)"
proof (rule emits_silent)
  fix w r w' assume run: "listImports rgn exportName w = Some (r, w')"
  then obtain r0 where "consumeAllTokens rgn (ListImportsCommand exportName) Imports w = Some (r0, w')"
    by (auto simp: listImports_def split: option.splits sum.splits if_splits)
  then show "ops w' = ops w"
    by (auto simp: consumeAllTokens_def dest: loop_keeps_ops)
qed

lemma emits_cacheOrWork:
  assumes "emits P work"
  shows "emits P (cacheOrWork c path work)"
proof -
  have read: "emits P (readFileOrNull path)"
    by (rule emits_silent) (auto simp: readFileOrNull_def split: option.splits sum.splits)
  have store: "emits P (\<lambda>w. Some (Inr result, writeCacheFile path (stringify c result) w))" for result
    by (rule emits_silent) (auto simp: writeCacheFile_def)
  show ?thesis
    unfolding cacheOrWork_def
    by (intro emits_await read) (auto intro!: emits_await assms store emits_returns emits_throws
          split: option.splits)
qed

lemma emits_getStacks: "emits P (getStacks json rgn)"
  unfolding getStacks_def describeStacks_def
  by (intro emits_await emits_cacheOrWork emits_consumeAllTokens)
     (auto intro: emits_returns emits_throws split: sum.splits)

lemma emits_getExportsWithImportingStacks:
  "emits P (getExportsWithImportingStacks exports json rgn)"
proof (induction exports)
  case Nil
  show ?case by (simp add: emits_returns)
next
  case (Cons eexport exports)
  show ?case
    by (auto intro!: emits_await emits_cacheOrWork emits_listImports emits_throws emits_returns Cons)
qed

lemma emits_processCloudFormation:
  assumes "\<And>stacks entries. list_all P (fst (emitGraph engine regionConfig environment apps incl stacks entries))"
  shows "emits P (processCloudFormation engine json regionConfig environment apps incl)"
  unfolding processCloudFormation_def listExports_def
  by (intro emits_await emits_getStacks emits_cacheOrWork emits_consumeAllTokens
        emits_getExportsWithImportingStacks emits_perform assms)

lemma await_returned:
  assumes "await m f w = Some (Inr y, w')"
  shows "\<exists>x w1. m w = Some (Inr x, w1) \<and> f x w1 = Some (Inr y, w')"
proof (cases "m w")
  case None
  with assms show ?thesis by (simp add: await_def)
next
  case (Some res)
  obtain r1 w1 where res: "res = (r1, w1)" by (cases res)
  with assms Some show ?thesis by (cases r1) (simp_all add: await_def)
qed

lemma emitGraph_single_app:
  assumes "\<not> multipleApps apps"
    and "opn \<in> set (fst (emitGraph engine regionConfig environment apps incl stacks entries))"
  shows "\<not> appsLevel opn"
proof -
  from emitGraph_ops [OF assms(2)] show ?thesis
  proof (elim disjE bexE conjE)
    fix s assume "opn \<in> set (fst (writePlaceholders regionConfig apps s))"
    from writePlaceholders_ops [OF this] assms(1) show ?thesis
      by (auto simp: APP_OUTPUT_DIR_def STACK_OUTPUT_DIR_def)
  next
    fix entry assume "opn \<in> set (fst (appendForExport engine regionConfig environment apps incl stacks entry))"
    from appendForExport_ops [of opn engine regionConfig environment apps incl stacks "fst entry" "snd entry"] this
    obtain es i where "opn \<in> set (fst (appendForImport engine regionConfig environment apps incl stacks
        (fst entry) es i))"
      by fastforce
    from appendForImport_ops [OF this] assms(1) show ?thesis
      by (auto simp: APP_OUTPUT_DIR_def STACK_OUTPUT_DIR_def)
  qed
qed

lemma main_ops:
  assumes run: "main engine json rgn environment apps incl w = Some (r, w')"
    and graph: "\<And>regionConfig stacks entries.
       list_all P (fst (emitGraph engine regionConfig environment apps incl stacks entries))"
    and dirs: "P (Mkdir APP_OUTPUT_DIR)" "P (Mkdir STACK_OUTPUT_DIR)" "P (Mkdir CACHE_DIR)"
    and stacksImage: "P (MadgeImage STACK_OUTPUT_DIR ''graph-stacks.png'')"
    and appsImage: "multipleApps apps \<Longrightarrow> P (MadgeImage APP_OUTPUT_DIR ''graph-apps.png'')"
  shows "\<exists>new. ops w' = ops w @ new \<and> list_all P new \<and>
           (r = Inr () \<longrightarrow>
              MadgeImage STACK_OUTPUT_DIR ''graph-stacks.png'' \<in> set new \<and>
              (multipleApps apps \<longrightarrow> MadgeImage APP_OUTPUT_DIR ''graph-apps.png'' \<in> set new))"
proof -
  let ?mkdirs = "perform (andThen (issue (Mkdir APP_OUTPUT_DIR))
                      (\<lambda>_. andThen (issue (Mkdir STACK_OUTPUT_DIR))
                              (\<lambda>_. issue (Mkdir CACHE_DIR))))"
  let ?first = "processCloudFormation engine json \<lparr>region = rgn, implicit = False\<rparr> environment apps incl"
  let ?second = "if rgn \<noteq> Some ''us-east-1''
                 then processCloudFormation engine json \<lparr>region = Some ''us-east-1'', implicit = True\<rparr>
                        environment apps incl
                 else returns ()"
  let ?images = "andThen (if multipleApps apps
                          then issue (MadgeImage APP_OUTPUT_DIR ''graph-apps.png'')
                          else skip)
                   (\<lambda>_. issue (MadgeImage STACK_OUTPUT_DIR ''graph-stacks.png''))"
  have images: "fst ?images = (if multipleApps apps then [MadgeImage APP_OUTPUT_DIR ''graph-apps.png''] else [])
                   @ [MadgeImage STACK_OUTPUT_DIR ''graph-stacks.png'']"
    by (simp add: fst_andThen emit_simps)
  have e1: "emits P ?mkdirs"
    by (rule emits_perform) (simp add: fst_andThen emit_simps dirs)
  have e2: "emits P ?first" by (rule emits_processCloudFormation) (rule graph)
  have e3: "emits P ?second"
    by (auto intro: emits_processCloudFormation graph emits_returns)
  have e4: "emits P (perform ?images)"
    by (rule emits_perform) (simp add: images stacksImage appsImage)
  have whole: "main engine json rgn environment apps incl =
      await ?mkdirs (\<lambda>_. await ?first (\<lambda>_. await ?second (\<lambda>_. perform ?images)))"
    by (simp add: main_def)
  show ?thesis
  proof (cases r)
    case (Inl e)
    have "emits P (main engine json rgn environment apps incl)"
      unfolding whole by (intro emits_await e1 e2 e3 e4)
    from emitsD [OF this run] Inl show ?thesis by auto
  next
    case (Inr u)
    with run whole have "await ?mkdirs (\<lambda>_. await ?first (\<lambda>_. await ?second (\<lambda>_. perform ?images))) w
        = Some (Inr (), w')" by simp
    from await_returned [OF this] obtain w1 where
      s1: "?mkdirs w = Some (Inr (), w1)"
      and r1: "await ?first (\<lambda>_. await ?second (\<lambda>_. perform ?images)) w1 = Some (Inr (), w')"
      by auto
    from await_returned [OF r1] obtain w2 where
      s2: "?first w1 = Some (Inr (), w2)"
      and r2: "await ?second (\<lambda>_. perform ?images) w2 = Some (Inr (), w')"
      by auto
    from await_returned [OF r2] obtain w3 where
      s3: "?second w2 = Some (Inr (), w3)"
      and s4: "perform ?images w3 = Some (Inr (), w')"
      by auto
    from emitsD [OF e1 s1] obtain n1 where n1: "ops w1 = ops w @ n1" "list_all P n1" by blast
    from emitsD [OF e2 s2] obtain n2 where n2: "ops w2 = ops w1 @ n2" "list_all P n2" by blast
    from emitsD [OF e3 s3] obtain n3 where n3: "ops w3 = ops w2 @ n3" "list_all P n3" by blast
    let ?shown = "(if multipleApps apps then [MadgeImage APP_OUTPUT_DIR ''graph-apps.png''] else [])
                   @ [MadgeImage STACK_OUTPUT_DIR ''graph-stacks.png'']"
    from s4 have n4: "ops w' = ops w3 @ ?shown"
      unfolding images [symmetric] by (auto simp: perform_def)
    let ?new = "n1 @ n2 @ n3 @ ?shown"
    have "ops w' = ops w @ ?new" using n1 n2 n3 n4 by simp
    moreover have "list_all P ?new"
      using n1 n2 n3 by (simp add: stacksImage appsImage)
    moreover have "MadgeImage STACK_OUTPUT_DIR ''graph-stacks.png'' \<in> set ?new"
      by simp
    moreover have "multipleApps apps \<longrightarrow> MadgeImage APP_OUTPUT_DIR ''graph-apps.png'' \<in> set ?new"
      by simp
    ultimately show ?thesis by blast
  qed
qed

section \<open>A run of the program on the example account\<close>

lemma cacheOrWork_hit:
  "cache_files w path = Some (Inr contents) \<Longrightarrow> contents \<noteq> [] \<Longrightarrow> parse c contents = Some v \<Longrightarrow>
   cacheOrWork c path work w = Some (Inr v, w)"
  by (simp add: cacheOrWork_def await_def readFileOrNull_def truthy_def template_def returns_def)

lemma example_fetch:
  assumes "cache_files w = cache_files exampleWorld"
  shows "getStacks exampleJson (Some ''eu-west-1'') w = Some (Inr exampleStacks, w)"
    and "cacheOrWork (exportsJson exampleJson) (template (Some ''eu-west-1'') @ ''_exports.cache.json'')
           (listExports (Some ''eu-west-1'')) w = Some (Inr [vpcExport], w)"
    and "getExportsWithImportingStacks [vpcExport] exampleJson (Some ''eu-west-1'') w
           = Some (Inr exampleExports, w)"
    and "getStacks exampleJson (Some ''us-east-1'') w = Some (Inr [], w)"
    and "cacheOrWork (exportsJson exampleJson) (template (Some ''us-east-1'') @ ''_exports.cache.json'')
           (listExports (Some ''us-east-1'')) w = Some (Inr [], w)"
proof -
  have "cacheOrWork (stacksJson exampleJson) (template (Some ''eu-west-1'') @ ''_stacks.cache.json'')
          (describeStacks (Some ''eu-west-1'')) w = Some (Inr [basVpc, basWeb, rtcWeb], w)"
    by (rule cacheOrWork_hit [where contents = "''three stacks''"])
       (simp_all add: assms exampleWorld_def exampleJson_def template_def)
  moreover have "getStacks_reduce [] [basVpc, basWeb, rtcWeb] = Inr exampleStacks"
    by (simp add: exampleStacks_def basVpc_def basWeb_def rtcWeb_def truthy_def template_def)
  ultimately show "getStacks exampleJson (Some ''eu-west-1'') w = Some (Inr exampleStacks, w)"
    by (simp add: getStacks_def await_def returns_def)
  show "cacheOrWork (exportsJson exampleJson) (template (Some ''eu-west-1'') @ ''_exports.cache.json'')
           (listExports (Some ''eu-west-1'')) w = Some (Inr [vpcExport], w)"
    by (rule cacheOrWork_hit [where contents = "''one export''"])
       (simp_all add: assms exampleWorld_def exampleJson_def template_def)
  have "cacheOrWork (importsJson exampleJson)
          (template (Some ''eu-west-1'') @ ''_cfListImports-'' @ template (Name vpcExport))
          (if \<not> truthy (Name vpcExport) then throws Invalid_export
           else listImports (Some ''eu-west-1'') (template (Name vpcExport))) w
        = Some (Inr [''bas-staging-web'', ''rtc-staging-web'', ''bas-staging-vpc''], w)"
    by (rule cacheOrWork_hit [where contents = "''three imports''"])
       (simp_all add: assms exampleWorld_def exampleJson_def template_def vpcExport_def)
  then show "getExportsWithImportingStacks [vpcExport] exampleJson (Some ''eu-west-1'') w
           = Some (Inr exampleExports, w)"
    by (simp add: await_def returns_def exampleExports_def)
  have "cacheOrWork (stacksJson exampleJson) (template (Some ''us-east-1'') @ ''_stacks.cache.json'')
          (describeStacks (Some ''us-east-1'')) w = Some (Inr [], w)"
    by (rule cacheOrWork_hit [where contents = "''[]''"])
       (simp_all add: assms exampleWorld_def exampleJson_def template_def)
  then show "getStacks exampleJson (Some ''us-east-1'') w = Some (Inr [], w)"
    by (simp add: getStacks_def await_def returns_def)
  show "cacheOrWork (exportsJson exampleJson) (template (Some ''us-east-1'') @ ''_exports.cache.json'')
           (listExports (Some ''us-east-1'')) w = Some (Inr [], w)"
    by (rule cacheOrWork_hit [where contents = "''[]''"])
       (simp_all add: assms exampleWorld_def exampleJson_def template_def)
qed

lemma example_passes:
  assumes "cache_files w = cache_files exampleWorld"
  shows "processCloudFormation engine exampleJson \<lparr>region = Some ''eu-west-1'', implicit = False\<rparr>
           ''staging'' apps incl w
         = Some (snd (emitGraph engine euWest ''staging'' apps incl exampleStacks exampleExports),
                 w\<lparr>ops := ops w @ fst (emitGraph engine euWest ''staging'' apps incl exampleStacks exampleExports)\<rparr>)"
    and "processCloudFormation engine exampleJson \<lparr>region = Some ''us-east-1'', implicit = True\<rparr>
           ''staging'' apps incl w
         = Some (Inr (), w\<lparr>ops := ops w\<rparr>)"
proof -
  show "processCloudFormation engine exampleJson \<lparr>region = Some ''eu-west-1'', implicit = False\<rparr>
           ''staging'' apps incl w
         = Some (snd (emitGraph engine euWest ''staging'' apps incl exampleStacks exampleExports),
                 w\<lparr>ops := ops w @ fst (emitGraph engine euWest ''staging'' apps incl exampleStacks exampleExports)\<rparr>)"
    by (simp add: processCloudFormation_def await_def example_fetch [OF assms] perform_def euWest_def
          del: getExportsWithImportingStacks.simps)
  have "emitGraph engine \<lparr>region = Some ''us-east-1'', implicit = True\<rparr> ''staging'' apps incl [] []
        = ([], Inr ())"
    by (simp add: emitGraph_def map_values_def andThen_def outcome_def skip_def)
  moreover have "getExportsWithImportingStacks [] exampleJson (Some ''us-east-1'') w = Some (Inr [], w)"
    by (simp add: returns_def)
  ultimately show "processCloudFormation engine exampleJson \<lparr>region = Some ''us-east-1'', implicit = True\<rparr>
           ''staging'' apps incl w
         = Some (Inr (), w\<lparr>ops := ops w\<rparr>)"
    by (simp add: processCloudFormation_def await_def example_fetch [OF assms] perform_def
          del: getExportsWithImportingStacks.simps)
qed

lemma example_main_single:
  "main engine exampleJson (Some ''eu-west-1'') ''staging'' (Some [''bas'']) None exampleWorld =
     Some (Inr (), exampleWorld\<lparr>ops :=
       [Mkdir APP_OUTPUT_DIR, Mkdir STACK_OUTPUT_DIR, Mkdir CACHE_DIR,
        WriteFile STACK_OUTPUT_DIR ''bas-staging-vpc.js'' [],
        WriteFile STACK_OUTPUT_DIR ''bas-staging-vpc.js'' [],
        WriteFile STACK_OUTPUT_DIR ''bas-staging-web.js'' [],
        WriteFile STACK_OUTPUT_DIR ''bas-staging-web.js'' [],
        AppendFile STACK_OUTPUT_DIR ''bas-staging-web.js'' (requireLine ''bas-staging-vpc'' vpcExport),
        MadgeImage STACK_OUTPUT_DIR ''graph-stacks.png'']\<rparr>)"
  by (simp add: main_def await_def perform_def example_passes example_single_app
        andThen_def issue_def skip_def multipleApps_def exampleWorld_def)

section \<open>No unit depends on itself\<close>

text \<open>
  Claim C8. Every require line that the emission appends, in either output directory,
  is appended for an export and a stack importing it: the unit it is appended to is
  named after the node of the importing stack, the line names the node of the
  exporting stack (apps-level nodes in the apps directory, stacks-level nodes in the
  stacks directory), and the two nodes differ. In particular the step for an export
  and an importing stack whose apps-level nodes are the same appends nothing in the
  apps directory. So in every run of the program that ends, each line appended
  requires a node other than the one of the unit it is appended to.
\<close>

theorem no_self_dependency:
  "(AppendFile dir unit declaration
      \<in> set (fst (emitGraph engine regionConfig environment apps incl stacks entries)) \<longrightarrow>
      (\<exists>eexport imports iimport exportingStack importingStack exportingNode importingNode.
         (eexport, imports) \<in> set entries \<and> iimport \<in> set imports \<and>
         map_get stacks (template (ExportingStackId eexport)) = Some exportingStack \<and>
         map_get stacks iimport = Some importingStack \<and>
         (dir = APP_OUTPUT_DIR \<and>
            getNodeNameForApp exportingStack regionConfig = Inr exportingNode \<and>
            getNodeNameForApp importingStack regionConfig = Inr importingNode
          \<or> dir = STACK_OUTPUT_DIR \<and>
            getNodeNameForStack exportingStack regionConfig = Inr exportingNode \<and>
            getNodeNameForStack importingStack regionConfig = Inr importingNode) \<and>
         unit = importingNode @ ''.js'' \<and>
         declaration = requireLine exportingNode eexport \<and>
         exportingNode \<noteq> importingNode)) \<and>
   (map_get stacks iimport' = Some importingStack' \<and>
    getNodeNameForApp exportingStack' regionConfig = getNodeNameForApp importingStack' regionConfig \<longrightarrow>
      AppendFile APP_OUTPUT_DIR unit' declaration'
        \<notin> set (fst (appendForImport engine regionConfig environment apps incl stacks eexport'
                      exportingStack' iimport'))) \<and>
   (main engine json rgn environment apps incl w = Some (r, w') \<longrightarrow>
      (\<exists>new. ops w' = ops w @ new \<and>
         (\<forall>dir unit declaration.
            AppendFile dir unit declaration \<in> set new \<longrightarrow>
              (\<exists>exportingNode importingNode eexport.
                 unit = importingNode @ ''.js'' \<and>
                 declaration = requireLine exportingNode eexport \<and>
                 exportingNode \<noteq> importingNode))))"
proof (intro conjI impI)
  assume "AppendFile dir unit declaration
            \<in> set (fst (emitGraph engine regionConfig environment apps incl stacks entries))"
  from emitGraph_declaration_origin [OF this]
  obtain ex ims im es where
    entry: "(ex, ims) \<in> set entries" "im \<in> set ims"
      "map_get stacks (template (ExportingStackId ex)) = Some es"
    and step: "AppendFile dir unit declaration
             \<in> set (fst (appendForImport engine regionConfig environment apps incl stacks ex es im))"
    by blast
  from appendForImport_ops [OF step] entry
  show "\<exists>eexport imports iimport exportingStack importingStack exportingNode importingNode.
         (eexport, imports) \<in> set entries \<and> iimport \<in> set imports \<and>
         map_get stacks (template (ExportingStackId eexport)) = Some exportingStack \<and>
         map_get stacks iimport = Some importingStack \<and>
         (dir = APP_OUTPUT_DIR \<and>
            getNodeNameForApp exportingStack regionConfig = Inr exportingNode \<and>
            getNodeNameForApp importingStack regionConfig = Inr importingNode
          \<or> dir = STACK_OUTPUT_DIR \<and>
            getNodeNameForStack exportingStack regionConfig = Inr exportingNode \<and>
            getNodeNameForStack importingStack regionConfig = Inr importingNode) \<and>
         unit = importingNode @ ''.js'' \<and>
         declaration = requireLine exportingNode eexport \<and>
         exportingNode \<noteq> importingNode"
    by (elim exE conjE disjE) (simp; blast)+
next
  assume "map_get stacks iimport' = Some importingStack' \<and>
    getNodeNameForApp exportingStack' regionConfig = getNodeNameForApp importingStack' regionConfig"
  then show "AppendFile APP_OUTPUT_DIR unit' declaration'
        \<notin> set (fst (appendForImport engine regionConfig environment apps incl stacks eexport'
                      exportingStack' iimport'))"
    using appendForImport_same_app by blast
next
  let ?P = "\<lambda>opn. \<forall>dir unit declaration. opn = AppendFile dir unit declaration \<longrightarrow>
              (\<exists>exportingNode importingNode eexport.
                 unit = importingNode @ ''.js'' \<and>
                 declaration = requireLine exportingNode eexport \<and>
                 exportingNode \<noteq> importingNode)"
  assume run: "main engine json rgn environment apps incl w = Some (r, w')"
  have graph: "list_all ?P (fst (emitGraph engine regionConfig environment apps incl stacks entries))"
    for regionConfig stacks entries
    unfolding list_all_iff
  proof (intro ballI allI impI)
    fix opn dir unit line
    assume "opn \<in> set (fst (emitGraph engine regionConfig environment apps incl stacks entries))"
      and "opn = AppendFile dir unit line"
    then have "AppendFile dir unit line
        \<in> set (fst (emitGraph engine regionConfig environment apps incl stacks entries))" by simp
    from emitGraph_declaration_origin [OF this] obtain ex es im where
      "AppendFile dir unit line
         \<in> set (fst (appendForImport engine regionConfig environment apps incl stacks ex es im))"
      by blast
    from appendForImport_ops [OF this]
    show "\<exists>exportingNode importingNode eexport.
                 unit = importingNode @ ''.js'' \<and>
                 line = requireLine exportingNode eexport \<and>
                 exportingNode \<noteq> importingNode"
      by auto
  qed
  from main_ops [of engine json rgn environment apps incl w r w' ?P, OF run graph]
  obtain new where "ops w' = ops w @ new" "list_all ?P new" by auto
  then show "\<exists>new. ops w' = ops w @ new \<and>
         (\<forall>dir unit declaration.
            AppendFile dir unit declaration \<in> set new \<longrightarrow>
              (\<exists>exportingNode importingNode eexport.
                 unit = importingNode @ ''.js'' \<and>
                 declaration = requireLine exportingNode eexport \<and>
                 exportingNode \<noteq> importingNode))"
    by (intro exI [of _ new]) (auto simp: list_all_iff)
qed

theorem no_self_dependency_witness:
  "AppendFile APP_OUTPUT_DIR ''rtc-staging.js'' (requireLine ''bas-staging'' vpcExport)
     \<in> set (fst (emitGraph strictEngine euWest ''staging'' None None exampleStacks exampleExports)) \<and>
   (\<exists>eexport imports iimport exportingStack importingStack exportingNode importingNode.
      (eexport, imports) \<in> set exampleExports \<and> iimport \<in> set imports \<and>
      map_get exampleStacks (template (ExportingStackId eexport)) = Some exportingStack \<and>
      map_get exampleStacks iimport = Some importingStack \<and>
      (APP_OUTPUT_DIR = APP_OUTPUT_DIR \<and>
         getNodeNameForApp exportingStack euWest = Inr exportingNode \<and>
         getNodeNameForApp importingStack euWest = Inr importingNode
       \<or> APP_OUTPUT_DIR = STACK_OUTPUT_DIR \<and>
         getNodeNameForStack exportingStack euWest = Inr exportingNode \<and>
         getNodeNameForStack importingStack euWest = Inr importingNode) \<and>
      ''rtc-staging.js'' = importingNode @ ''.js'' \<and>
      requireLine ''bas-staging'' vpcExport = requireLine exportingNode eexport \<and>
      exportingNode \<noteq> importingNode) \<and>
   map_get exampleStacks ''bas-staging-web'' = Some basWeb \<and>
   getNodeNameForApp basVpc euWest = getNodeNameForApp basWeb euWest \<and>
   AppendFile APP_OUTPUT_DIR ''bas-staging.js'' (requireLine ''bas-staging'' vpcExport)
     \<notin> set (fst (appendForImport strictEngine euWest ''staging'' None None exampleStacks vpcExport
                   basVpc ''bas-staging-web'')) \<and>
   main strictEngine exampleJson (Some ''eu-west-1'') ''staging'' (Some [''bas'']) None exampleWorld =
     Some (Inr (), exampleWorld\<lparr>ops :=
       [Mkdir APP_OUTPUT_DIR, Mkdir STACK_OUTPUT_DIR, Mkdir CACHE_DIR,
        WriteFile STACK_OUTPUT_DIR ''bas-staging-vpc.js'' [],
        WriteFile STACK_OUTPUT_DIR ''bas-staging-vpc.js'' [],
        WriteFile STACK_OUTPUT_DIR ''bas-staging-web.js'' [],
        WriteFile STACK_OUTPUT_DIR ''bas-staging-web.js'' [],
        AppendFile STACK_OUTPUT_DIR ''bas-staging-web.js'' (requireLine ''bas-staging-vpc'' vpcExport),
        MadgeImage STACK_OUTPUT_DIR ''graph-stacks.png'']\<rparr>) \<and>
   (\<exists>exportingNode importingNode eexport.
      ''bas-staging-web.js'' = importingNode @ ''.js'' \<and>
      requireLine ''bas-staging-vpc'' vpcExport = requireLine exportingNode eexport \<and>
      exportingNode \<noteq> importingNode)"
proof -
  have emitted: "AppendFile APP_OUTPUT_DIR ''rtc-staging.js'' (requireLine ''bas-staging'' vpcExport)
     \<in> set (fst (emitGraph strictEngine euWest ''staging'' None None exampleStacks exampleExports))"
    by (simp add: example_all_apps)
  have same: "map_get exampleStacks ''bas-staging-web'' = Some basWeb \<and>
      getNodeNameForApp basVpc euWest = getNodeNameForApp basWeb euWest"
    by (simp add: example_lookup example_nodes)
  note inst = no_self_dependency [of APP_OUTPUT_DIR "''rtc-staging.js''"
      "requireLine ''bas-staging'' vpcExport" strictEngine euWest "''staging''" None None exampleStacks
      exampleExports "''bas-staging-web''" basWeb basVpc "''bas-staging.js''"
      "requireLine ''bas-staging'' vpcExport" vpcExport]
  note first = inst [THEN conjunct1, THEN mp, OF emitted]
  note second = inst [THEN conjunct2, THEN conjunct1, THEN mp, OF same]
  note run = example_main_single [of strictEngine]
  from no_self_dependency [where engine = strictEngine and apps = "Some [''bas'']"
      and environment = "''staging''" and incl = None and json = exampleJson
      and rgn = "Some ''eu-west-1''" and w = exampleWorld,
      THEN conjunct2, THEN conjunct2, THEN mp, OF run]
  obtain new where new: "ops (exampleWorld\<lparr>ops :=
       [Mkdir APP_OUTPUT_DIR, Mkdir STACK_OUTPUT_DIR, Mkdir CACHE_DIR,
        WriteFile STACK_OUTPUT_DIR ''bas-staging-vpc.js'' [],
        WriteFile STACK_OUTPUT_DIR ''bas-staging-vpc.js'' [],
        WriteFile STACK_OUTPUT_DIR ''bas-staging-web.js'' [],
        WriteFile STACK_OUTPUT_DIR ''bas-staging-web.js'' [],
        AppendFile STACK_OUTPUT_DIR ''bas-staging-web.js'' (requireLine ''bas-staging-vpc'' vpcExport),
        MadgeImage STACK_OUTPUT_DIR ''graph-stacks.png'']\<rparr>) = ops exampleWorld @ new"
    and shape: "\<And>dir unit declaration. AppendFile dir unit declaration \<in> set new \<Longrightarrow>
        (\<exists>exportingNode importingNode eexport.
           unit = importingNode @ ''.js'' \<and>
           declaration = requireLine exportingNode eexport \<and>
           exportingNode \<noteq> importingNode)"
    by blast
  from new have "AppendFile STACK_OUTPUT_DIR ''bas-staging-web.js''
      (requireLine ''bas-staging-vpc'' vpcExport) \<in> set new"
    by (auto simp: exampleWorld_def)
  from shape [OF this] first second emitted same run
  show ?thesis by blast
qed

section \<open>Placeholder units\<close>

text \<open>
  Claim C4, as amended. When the emission completes, for every stack of the map that
  passes the filter an empty unit named after the stack's stacks-level node is
  written into the stacks directory; an empty unit named after the stack's apps-level
  node is written into the apps directory when the apps are not restricted to one
  (no app given, or more than one); and when they are restricted to one, no unit at
  all is written into the apps directory.
\<close>

theorem placeholders_written:
  assumes "snd (emitGraph engine regionConfig environment apps incl stacks entries) = Inr ()"
    and "stack \<in> set (map_values stacks)"
    and "isInterestingStack engine stack environment apps incl = Inr True"
  shows "(\<exists>node. getNodeNameForStack stack regionConfig = Inr node \<and>
            WriteFile STACK_OUTPUT_DIR (node @ ''.js'') []
              \<in> set (fst (emitGraph engine regionConfig environment apps incl stacks entries))) \<and>
         (multipleApps apps \<longrightarrow>
            (\<exists>node. getNodeNameForApp stack regionConfig = Inr node \<and>
               WriteFile APP_OUTPUT_DIR (node @ ''.js'') []
                 \<in> set (fst (emitGraph engine regionConfig environment apps incl stacks entries)))) \<and>
         (\<not> multipleApps apps \<longrightarrow>
            (\<forall>unit text. WriteFile APP_OUTPUT_DIR unit text
               \<notin> set (fst (emitGraph engine regionConfig environment apps incl stacks entries))))"
proof -
  from emitGraph_completed [OF assms(1)] obtain kept where
    kept: "filterInteresting engine environment apps incl (map_values stacks) = Inr kept"
    and loop: "snd (forEach (writePlaceholders regionConfig apps) kept) = Inr ()"
    and whole: "fst (emitGraph engine regionConfig environment apps incl stacks entries) =
             fst (forEach (writePlaceholders regionConfig apps) kept) @
             fst (forEach (appendForExport engine regionConfig environment apps incl stacks) entries)"
    by blast
  from filterInteresting_completed [OF kept] assms(2,3) have mem: "stack \<in> set kept" by simp
  from loop mem have ran: "snd (writePlaceholders regionConfig apps stack) = Inr ()"
    by (simp add: forEach_completed)
  have part: "set (fst (writePlaceholders regionConfig apps stack))
      \<subseteq> set (fst (emitGraph engine regionConfig environment apps incl stacks entries))"
    using mem by (auto simp: whole forEach_ops_completed [OF loop])
  have none: "WriteFile APP_OUTPUT_DIR unit text
               \<notin> set (fst (emitGraph engine regionConfig environment apps incl stacks entries))"
    if single: "\<not> multipleApps apps" for unit "text"
  proof
    assume "WriteFile APP_OUTPUT_DIR unit text
               \<in> set (fst (emitGraph engine regionConfig environment apps incl stacks entries))"
    from emitGraph_ops [OF this] show False
    proof (elim disjE bexE conjE)
      fix s assume "WriteFile APP_OUTPUT_DIR unit text \<in> set (fst (writePlaceholders regionConfig apps s))"
      from writePlaceholders_ops [OF this] single show False
        by (auto simp: APP_OUTPUT_DIR_def STACK_OUTPUT_DIR_def)
    next
      fix entry assume "WriteFile APP_OUTPUT_DIR unit text
          \<in> set (fst (appendForExport engine regionConfig environment apps incl stacks entry))"
      from appendForExport_ops [of _ engine regionConfig environment apps incl stacks "fst entry" "snd entry"] this
      obtain es i where "WriteFile APP_OUTPUT_DIR unit text
          \<in> set (fst (appendForImport engine regionConfig environment apps incl stacks (fst entry) es i))"
        by fastforce
      from appendForImport_ops [OF this] show False by auto
    qed
  qed
  from writePlaceholders_completed [OF ran] part none show ?thesis by blast
qed

theorem placeholders_written_witness:
  "snd (emitGraph strictEngine euWest ''staging'' None None exampleStacks exampleExports) = Inr () \<and>
   rtcWeb \<in> set (map_values exampleStacks) \<and>
   isInterestingStack strictEngine rtcWeb ''staging'' None None = Inr True \<and>
   getNodeNameForStack rtcWeb euWest = Inr ''rtc-staging-web'' \<and>
   getNodeNameForApp rtcWeb euWest = Inr ''rtc-staging'' \<and>
   WriteFile STACK_OUTPUT_DIR ''rtc-staging-web.js'' []
     \<in> set (fst (emitGraph strictEngine euWest ''staging'' None None exampleStacks exampleExports)) \<and>
   WriteFile APP_OUTPUT_DIR ''rtc-staging.js'' []
     \<in> set (fst (emitGraph strictEngine euWest ''staging'' None None exampleStacks exampleExports)) \<and>
   snd (emitGraph strictEngine euWest ''staging'' (Some [''bas'']) None exampleStacks exampleExports) = Inr () \<and>
   basWeb \<in> set (map_values exampleStacks) \<and>
   isInterestingStack strictEngine basWeb ''staging'' (Some [''bas'']) None = Inr True \<and>
   WriteFile APP_OUTPUT_DIR ''bas-staging.js'' []
     \<notin> set (fst (emitGraph strictEngine euWest ''staging'' (Some [''bas'']) None exampleStacks exampleExports))"
proof -
  have all: "snd (emitGraph strictEngine euWest ''staging'' None None exampleStacks exampleExports) = Inr ()"
    and single: "snd (emitGraph strictEngine euWest ''staging'' (Some [''bas'']) None exampleStacks exampleExports) = Inr ()"
    by (simp_all add: example_all_apps example_single_app)
  have rtc: "rtcWeb \<in> set (map_values exampleStacks)"
    and bas: "basWeb \<in> set (map_values exampleStacks)"
    by (simp_all add: map_values_def exampleStacks_def)
  from placeholders_written [OF all rtc example_interesting(3)]
    placeholders_written [OF single bas example_interesting(5)]
    all rtc single bas example_interesting(3,5) example_nodes(3,6)
  show ?thesis by (simp add: multipleApps_def)
qed

text \<open>
  The claim as stated fails when the apps are restricted to one: the stack
  \<open>bas-staging-web\<close> passes the filter and the emission completes, but only units of
  the stacks directory are written.
\<close>

theorem placeholders_written_counterexample:
  "isInterestingStack strictEngine basWeb ''staging'' (Some [''bas'']) None = Inr True \<and>
   basWeb \<in> set (map_values exampleStacks) \<and>
   emitGraph strictEngine euWest ''staging'' (Some [''bas'']) None exampleStacks exampleExports =
     ([WriteFile STACK_OUTPUT_DIR ''bas-staging-vpc.js'' [],
       WriteFile STACK_OUTPUT_DIR ''bas-staging-vpc.js'' [],
       WriteFile STACK_OUTPUT_DIR ''bas-staging-web.js'' [],
       WriteFile STACK_OUTPUT_DIR ''bas-staging-web.js'' [],
       AppendFile STACK_OUTPUT_DIR ''bas-staging-web.js'' (requireLine ''bas-staging-vpc'' vpcExport)],
      Inr ())"
proof -
  have "basWeb \<in> set (map_values exampleStacks)"
    by (simp add: map_values_def exampleStacks_def)
  then show ?thesis
    by (simp add: example_interesting example_single_app)
qed

section \<open>Stacks-level dependency declarations\<close>



section \<open>The apps-level output\<close>

text \<open>
  Claim C2. Whenever the program ends, having thrown or not, the output operations it
  has issued extend those issued before. When the apps are restricted to one (the
  option lists at most one app), none of them writes a unit, appends a line or renders
  an image of the apps directory (the directory itself is always created). When the
  program ends without throwing, the image \<open>graph-stacks.png\<close> of the stacks directory
  is rendered, and the image \<open>graph-apps.png\<close> of the apps directory is rendered too
  when no app is given or more than one.
\<close>

theorem apps_level_output_gated:
  assumes "main engine json rgn environment apps incl w = Some (r, w')"
  shows "\<exists>new. ops w' = ops w @ new \<and>
           ((\<exists>as. apps = Some as \<and> length as \<le> 1) \<longrightarrow> list_all (\<lambda>opn. \<not> appsLevel opn) new) \<and>
           (r = Inr () \<longrightarrow>
              MadgeImage STACK_OUTPUT_DIR ''graph-stacks.png'' \<in> set new \<and>
              (apps = None \<or> (\<exists>as. apps = Some as \<and> 1 < length as) \<longrightarrow>
                 MadgeImage APP_OUTPUT_DIR ''graph-apps.png'' \<in> set new))"
proof -
  let ?P = "\<lambda>opn. \<not> multipleApps apps \<longrightarrow> \<not> appsLevel opn"
  have graph: "list_all ?P (fst (emitGraph engine regionConfig environment apps incl stacks entries))"
    for regionConfig stacks entries
    using emitGraph_single_app [of apps _ engine regionConfig environment incl stacks entries]
    by (auto simp: list_all_iff)
  from main_ops [of engine json rgn environment apps incl w r w' ?P, OF assms graph]
  obtain new where new: "ops w' = ops w @ new" "list_all ?P new"
    "r = Inr () \<longrightarrow>
              MadgeImage STACK_OUTPUT_DIR ''graph-stacks.png'' \<in> set new \<and>
              (multipleApps apps \<longrightarrow> MadgeImage APP_OUTPUT_DIR ''graph-apps.png'' \<in> set new)"
    by (auto simp: APP_OUTPUT_DIR_def STACK_OUTPUT_DIR_def)
  have single: "(\<exists>as. apps = Some as \<and> length as \<le> 1) \<longleftrightarrow> \<not> multipleApps apps"
    by (cases apps) (auto simp: multipleApps_def)
  have multiple: "(apps = None \<or> (\<exists>as. apps = Some as \<and> 1 < length as)) \<longleftrightarrow> multipleApps apps"
    by (cases apps) (auto simp: multipleApps_def)
  from new show ?thesis
    unfolding single multiple by (intro exI [of _ new]) (auto simp: list_all_iff)
qed

theorem apps_level_output_gated_witness:
  "main strictEngine exampleJson (Some ''eu-west-1'') ''staging'' (Some [''bas'']) None exampleWorld =
     Some (Inr (), exampleWorld\<lparr>ops :=
       [Mkdir APP_OUTPUT_DIR, Mkdir STACK_OUTPUT_DIR, Mkdir CACHE_DIR,
        WriteFile STACK_OUTPUT_DIR ''bas-staging-vpc.js'' [],
        WriteFile STACK_OUTPUT_DIR ''bas-staging-vpc.js'' [],
        WriteFile STACK_OUTPUT_DIR ''bas-staging-web.js'' [],
        WriteFile STACK_OUTPUT_DIR ''bas-staging-web.js'' [],
        AppendFile STACK_OUTPUT_DIR ''bas-staging-web.js'' (requireLine ''bas-staging-vpc'' vpcExport),
        MadgeImage STACK_OUTPUT_DIR ''graph-stacks.png'']\<rparr>) \<and>
   (\<exists>new. ops (exampleWorld\<lparr>ops :=
       [Mkdir APP_OUTPUT_DIR, Mkdir STACK_OUTPUT_DIR, Mkdir CACHE_DIR,
        WriteFile STACK_OUTPUT_DIR ''bas-staging-vpc.js'' [],
        WriteFile STACK_OUTPUT_DIR ''bas-staging-vpc.js'' [],
        WriteFile STACK_OUTPUT_DIR ''bas-staging-web.js'' [],
        WriteFile STACK_OUTPUT_DIR ''bas-staging-web.js'' [],
        AppendFile STACK_OUTPUT_DIR ''bas-staging-web.js'' (requireLine ''bas-staging-vpc'' vpcExport),
        MadgeImage STACK_OUTPUT_DIR ''graph-stacks.png'']\<rparr>) = ops exampleWorld @ new \<and>
      list_all (\<lambda>opn. \<not> appsLevel opn) new \<and>
      MadgeImage STACK_OUTPUT_DIR ''graph-stacks.png'' \<in> set new)"
proof -
  from apps_level_output_gated [OF example_main_single] obtain new where
    "ops (exampleWorld\<lparr>ops :=
       [Mkdir APP_OUTPUT_DIR, Mkdir STACK_OUTPUT_DIR, Mkdir CACHE_DIR,
        WriteFile STACK_OUTPUT_DIR ''bas-staging-vpc.js'' [],
        WriteFile STACK_OUTPUT_DIR ''bas-staging-vpc.js'' [],
        WriteFile STACK_OUTPUT_DIR ''bas-staging-web.js'' [],
        WriteFile STACK_OUTPUT_DIR ''bas-staging-web.js'' [],
        AppendFile STACK_OUTPUT_DIR ''bas-staging-web.js'' (requireLine ''bas-staging-vpc'' vpcExport),
        MadgeImage STACK_OUTPUT_DIR ''graph-stacks.png'']\<rparr>) = ops exampleWorld @ new"
    and "(\<exists>as. Some [''bas''] = Some as \<and> length as \<le> 1) \<longrightarrow> list_all (\<lambda>opn. \<not> appsLevel opn) new"
    and "Inr () = (Inr () :: error + unit) \<longrightarrow>
           MadgeImage STACK_OUTPUT_DIR ''graph-stacks.png'' \<in> set new"
    by blast
  then have "ops (exampleWorld\<lparr>ops :=
       [Mkdir APP_OUTPUT_DIR, Mkdir STACK_OUTPUT_DIR, Mkdir CACHE_DIR,
        WriteFile STACK_OUTPUT_DIR ''bas-staging-vpc.js'' [],
        WriteFile STACK_OUTPUT_DIR ''bas-staging-vpc.js'' [],
        WriteFile STACK_OUTPUT_DIR ''bas-staging-web.js'' [],
        WriteFile STACK_OUTPUT_DIR ''bas-staging-web.js'' [],
        AppendFile STACK_OUTPUT_DIR ''bas-staging-web.js'' (requireLine ''bas-staging-vpc'' vpcExport),
        MadgeImage STACK_OUTPUT_DIR ''graph-stacks.png'']\<rparr>) = ops exampleWorld @ new \<and>
      list_all (\<lambda>opn. \<not> appsLevel opn) new \<and>
      MadgeImage STACK_OUTPUT_DIR ''graph-stacks.png'' \<in> set new"
    by simp
  with example_main_single show ?thesis by blast
qed

end
